theory Spec2Isabelle
  imports Main
begin

section \<open>Python primitives used by the sources\<close>

text \<open>
  Python \<open>str\<close> values are modelled as \<open>string\<close>, Python \<open>int\<close> as \<open>int\<close>.
  The functions below are the fragments of \<open>str(int)\<close>, \<open>int(str)\<close>, \<open>str.strip\<close>,
  \<open>str.upper\<close> and \<open>str.startswith\<close> that the modelled sources rely on, for the
  characters a \<open>char\<close> can hold. CPython refuses a \<open>str\<close>/\<open>int\<close> conversion of more
  than \<open>max_str_digits\<close> digits with \<open>ValueError\<close>; the limit is taken at its default.
\<close>

datatype error = ValidationError string | ValueError string | TypeError string
  | DriverError string

definition digit_char :: "nat \<Rightarrow> char" where
  "digit_char d = ''0123456789'' ! d"

definition is_digit :: "char \<Rightarrow> bool" where
  "is_digit c = (c \<in> set ''0123456789'')"

definition digit_val :: "char \<Rightarrow> nat" where
  \<comment> \<open>the position of a digit in \<open>0123456789\<close>\<close>
  "digit_val c = length (takeWhile (\<lambda>d. d \<noteq> c) ''0123456789'')"

function nat_to_dec :: "nat \<Rightarrow> string" where
  "nat_to_dec n =
     (if n < 10 then [digit_char n] else nat_to_dec (n div 10) @ [digit_char (n mod 10)])"
  by pat_completeness auto
termination
  by (relation "measure id") auto

declare nat_to_dec.simps [simp del]

definition py_str_int :: "int \<Rightarrow> string" where
  \<comment> \<open>\<open>str(i)\<close> for an int\<close>
  "py_str_int i = (if i < 0 then CHR ''-'' # nat_to_dec (nat (- i)) else nat_to_dec (nat i))"

definition max_str_digits :: nat where
  "max_str_digits = 4300"

definition str_digits_ok :: "int \<Rightarrow> bool" where
  \<comment> \<open>\<open>str(i)\<close> does not raise: the decimal digits of \<open>i\<close>, sign apart, are within the
      limit\<close>
  "str_digits_ok i = (length (nat_to_dec (nat \<bar>i\<bar>)) \<le> max_str_digits)"

definition is_py_space :: "char \<Rightarrow> bool" where
  \<comment> \<open>the whitespace of \<open>str.strip()\<close> below code point 256\<close>
  "is_py_space c =
     (let n = (of_char c :: nat)
      in (9 \<le> n \<and> n \<le> 13) \<or> (28 \<le> n \<and> n \<le> 32) \<or> n = 133 \<or> n = 160)"

definition py_strip :: "string \<Rightarrow> string" where
  "py_strip s = rev (dropWhile is_py_space (rev (dropWhile is_py_space s)))"

fun dec_body :: "nat \<Rightarrow> string \<Rightarrow> nat option" where
  "dec_body acc [] = Some acc"
| "dec_body acc (c # cs) =
     (if is_digit c then dec_body (10 * acc + digit_val c) cs
      else if c = CHR ''_'' then
        (case cs of
           [] \<Rightarrow> None
         | d # ds \<Rightarrow> if is_digit d then dec_body (10 * acc + digit_val d) ds else None)
      else None)"

definition dec_digits :: "string \<Rightarrow> nat option" where
  \<comment> \<open>one or more decimal digits, single underscores allowed between digits\<close>
  "dec_digits s =
     (case s of [] \<Rightarrow> None
      | c # cs \<Rightarrow> if is_digit c then dec_body (digit_val c) cs else None)"

definition is_int_space :: "char \<Rightarrow> bool" where
  \<comment> \<open>the whitespace that \<open>int()\<close> skips around the number, below code point 256; the
      separators 28 to 31, which \<open>str.strip()\<close> removes, are not among it\<close>
  "is_int_space c =
     (let n = (of_char c :: nat)
      in (9 \<le> n \<and> n \<le> 13) \<or> n = 32 \<or> n = 133 \<or> n = 160)"

definition int_strip :: "string \<Rightarrow> string" where
  "int_strip s = rev (dropWhile is_int_space (rev (dropWhile is_int_space s)))"

definition py_int :: "string \<Rightarrow> int option" where
  \<comment> \<open>\<open>int(s)\<close> for a str; \<open>None\<close> stands for the \<open>ValueError\<close> it raises, also when the
      text has more digits than the limit\<close>
  "py_int s =
     (case int_strip s of
        [] \<Rightarrow> None
      | c # r \<Rightarrow>
          if max_str_digits < length (filter is_digit (c # r)) then None
          else if c = CHR ''-'' then map_option (\<lambda>n. - int n) (dec_digits r)
          else if c = CHR ''+'' then map_option int (dec_digits r)
          else map_option int (dec_digits (c # r)))"

text \<open>The value of a digit string read left to right, starting from \<open>acc\<close>.\<close>
definition dec_fold :: "nat \<Rightarrow> string \<Rightarrow> nat" where
  "dec_fold acc s = foldl (\<lambda>a c. 10 * a + digit_val c) acc s"

section \<open>Change events and audit-log records (models/event.py, models/audit.py)\<close>

text \<open>
  Python values that travel in payload dictionaries. A \<open>dict\<close> is an association list in
  insertion order. A \<open>datetime\<close> is an abstract instant.
\<close>

datatype pyval = PNone | PBool bool | PInt int | PStr string
  | PList "pyval list" | PDict "(string \<times> pyval) list"

type_synonym py_dict = "(string \<times> pyval) list"
type_synonym datetime = int

datatype OperationType = INSERT | UPDATE | DELETE

text \<open>\<open>row_id: Union[int, str]\<close>\<close>
datatype row_key = RInt int | RStr string

fun py_str_key :: "row_key \<Rightarrow> string" where
  "py_str_key (RInt i) = py_str_int i"
| "py_str_key (RStr s) = s"

fun key_str_ok :: "row_key \<Rightarrow> bool" where
  \<comment> \<open>\<open>str(row_id)\<close> does not raise\<close>
  "key_str_ok (RInt i) = str_digits_ok i"
| "key_str_ok (RStr s) = True"

record ChangeEvent =
  event_id :: string
  audit_id :: int
  timestamp :: datetime
  operation :: OperationType
  table_name :: string
  row_id :: row_key
  before_data :: "py_dict option"
  after_data :: "py_dict option"

definition expected_event_id :: "int \<Rightarrow> string \<Rightarrow> row_key \<Rightarrow> string" where
  \<comment> \<open>\<open>f"{audit_id}:{table_name}:{row_id}"\<close>\<close>
  "expected_event_id aid tbl rid = py_str_int aid @ '':'' @ tbl @ '':'' @ py_str_key rid"

definition new_ChangeEvent ::
  "string \<Rightarrow> int \<Rightarrow> datetime \<Rightarrow> OperationType \<Rightarrow> string \<Rightarrow> row_key \<Rightarrow>
   py_dict option \<Rightarrow> py_dict option \<Rightarrow> error + ChangeEvent" where
  \<comment> \<open>the constructor: field constraint \<open>audit_id >= 0\<close>, then \<open>validate_event_id\<close>
      (where formatting the expected id raises when \<open>str\<close> of an int does), then
      \<open>validate_data_consistency\<close>\<close>
  "new_ChangeEvent eid aid ts op tbl rid before after =
     (if aid < 0 then Inl (ValidationError ''audit_id'')
      else if str_digits_ok aid \<and> key_str_ok rid then
        (if eid \<noteq> expected_event_id aid tbl rid then Inl (ValidationError ''event_id'')
         else if op = INSERT \<and> after = None then Inl (ValidationError ''INSERT after_data'')
         else if op = DELETE \<and> before = None then Inl (ValidationError ''DELETE before_data'')
         else if op = UPDATE \<and> (before = None \<or> after = None)
           then Inl (ValidationError ''UPDATE before_data after_data'')
         else Inr \<lparr>event_id = eid, audit_id = aid, timestamp = ts, operation = op,
                   table_name = tbl, row_id = rid, before_data = before, after_data = after\<rparr>)
      else Inl (ValidationError ''str''))"

definition valid_ChangeEvent :: "ChangeEvent \<Rightarrow> bool" where
  \<comment> \<open>\<open>e\<close> is a value the constructor can return\<close>
  "valid_ChangeEvent e =
     (new_ChangeEvent (event_id e) (audit_id e) (timestamp e) (operation e) (table_name e)
        (row_id e) (before_data e) (after_data e) = Inr e)"

record AuditLog =
  al_id :: int
  al_table_name :: string
  al_operation :: OperationType
  al_row_id :: "string option"
  al_before_data :: "py_dict option"
  al_after_data :: "py_dict option"
  al_created_at :: datetime
  al_consumed_at :: "datetime option"
  al_retry_count :: int

definition new_AuditLog ::
  "int \<Rightarrow> string \<Rightarrow> OperationType \<Rightarrow> string option \<Rightarrow> py_dict option \<Rightarrow> py_dict option \<Rightarrow>
   datetime \<Rightarrow> datetime option \<Rightarrow> int \<Rightarrow> error + AuditLog" where
  \<comment> \<open>the constructor: field constraint \<open>retry_count >= 0\<close>, then
      \<open>validate_data_consistency\<close>\<close>
  "new_AuditLog i tbl op rid before after created consumed retries =
     (if retries < 0 then Inl (ValidationError ''retry_count'')
      else if op = INSERT \<and> after = None then Inl (ValidationError ''INSERT after_data'')
      else if op = DELETE \<and> before = None then Inl (ValidationError ''DELETE before_data'')
      else Inr \<lparr>al_id = i, al_table_name = tbl, al_operation = op, al_row_id = rid,
                al_before_data = before, al_after_data = after, al_created_at = created,
                al_consumed_at = consumed, al_retry_count = retries\<rparr>)"

definition to_change_event :: "AuditLog \<Rightarrow> error + ChangeEvent" where
  \<comment> \<open>\<open>row_id = self.row_id or ""\<close>, then \<open>int(row_id)\<close> when it parses; the \<open>event_id\<close>
      is formatted before the constructor runs\<close>
  "to_change_event a =
     (let s = (case al_row_id a of None \<Rightarrow> [] | Some r \<Rightarrow> r);
          rid = (case py_int s of Some n \<Rightarrow> RInt n | None \<Rightarrow> RStr s)
      in if str_digits_ok (al_id a) \<and> key_str_ok rid
         then new_ChangeEvent (expected_event_id (al_id a) (al_table_name a) rid) (al_id a)
                (al_created_at a) (al_operation a) (al_table_name a) rid
                (al_before_data a) (al_after_data a)
         else Inl (ValueError ''str''))"

definition from_change_event :: "ChangeEvent \<Rightarrow> error + AuditLog" where
  \<comment> \<open>\<open>parts = event.event_id.split(":")\<close>, \<open>audit_id = int(parts[0])\<close>, then
      \<open>str(event.row_id)\<close>\<close>
  "from_change_event e =
     (case py_int (takeWhile (\<lambda>c. c \<noteq> CHR '':'') (event_id e)) of
        None \<Rightarrow> Inl (ValueError ''int'')
      | Some aid \<Rightarrow>
          if key_str_ok (row_id e)
          then new_AuditLog aid (table_name e) (operation e) (Some (py_str_key (row_id e)))
                 (before_data e) (after_data e) (timestamp e) None 0
          else Inl (ValueError ''str''))"

definition round_trip :: "ChangeEvent \<Rightarrow> error + ChangeEvent" where
  "round_trip e = (case from_change_event e of Inl x \<Rightarrow> Inl x | Inr a \<Rightarrow> to_change_event a)"

definition returned_row_id :: "row_key \<Rightarrow> row_key" where
  "returned_row_id k =
     (case k of RInt i \<Rightarrow> RInt i
      | RStr s \<Rightarrow> (case py_int s of Some n \<Rightarrow> RInt n | None \<Rightarrow> RStr s))"

section \<open>Audit reader (core/audit_reader.py)\<close>

text \<open>
  The text held in a JSON column of the audit table is modelled by what \<open>json.loads\<close>
  does with it: \<open>Malformed s\<close> is a text \<open>s\<close> that \<open>json.loads\<close> rejects with
  \<open>JSONDecodeError\<close> (the empty text included), \<open>Encodes v\<close> a text that it parses to the
  value \<open>v\<close>. \<open>json.dumps d\<close> is then \<open>Encodes (PDict d)\<close>. The \<open>created_at\<close> column holds
  a timestamp that \<open>datetime.fromisoformat\<close> accepts.
\<close>

datatype json_text = Malformed string | Encodes pyval

record audit_row =
  r_id :: int
  r_table_name :: string
  r_operation :: string
  r_row_id :: "string option"
  r_before_data :: "json_text option"
  r_after_data :: "json_text option"
  r_created_at :: datetime
  r_consumed_at :: "datetime option"
  r_retry_count :: int

text \<open>
  The source connection as the reader sees it: the rows of \<open>_cdc_audit_log\<close>, and whether
  a statement sent over the connection raises.
\<close>

record source_db =
  audit_rows :: "audit_row list"
  db_fails :: bool

record AuditReader =
  rd_batch_size :: int
  rd_running :: bool
  rd_last_audit_id :: int

definition reader_start :: "int \<Rightarrow> AuditReader \<Rightarrow> AuditReader" where
  "reader_start from_id rd = rd\<lparr>rd_last_audit_id := from_id, rd_running := True\<rparr>"

definition sql_limit :: "int \<Rightarrow> 'a list \<Rightarrow> 'a list" where
  \<comment> \<open>SQLite's \<open>LIMIT n\<close>: a negative \<open>n\<close> is no limit\<close>
  "sql_limit n xs = (if n < 0 then xs else take (nat n) xs)"

definition fetch_unconsumed :: "source_db \<Rightarrow> int \<Rightarrow> int \<Rightarrow> audit_row list" where
  \<comment> \<open>\<open>WHERE id > ? AND consumed_at IS NULL ORDER BY id LIMIT ?\<close>; \<open>[]\<close> when the query raises\<close>
  "fetch_unconsumed db last_id limit =
     (if db_fails db then []
      else sql_limit limit
             (sort_key r_id
                (filter (\<lambda>r. last_id < r_id r \<and> r_consumed_at r = None) (audit_rows db))))"

definition mark_consumed :: "datetime \<Rightarrow> int list \<Rightarrow> source_db \<Rightarrow> error + source_db" where
  \<comment> \<open>\<open>UPDATE ... SET consumed_at = ? WHERE id IN (...)\<close>, then commit; errors are re-raised\<close>
  "mark_consumed now audit_ids db =
     (if audit_ids = [] then Inr db
      else if db_fails db then Inl (DriverError ''mark_consumed'')
      else Inr (db\<lparr>audit_rows :=
                  map (\<lambda>r. if r_id r \<in> set audit_ids then r\<lparr>r_consumed_at := Some now\<rparr> else r)
                    (audit_rows db)\<rparr>))"

definition json_loads_or_none :: "json_text option \<Rightarrow> pyval" where
  \<comment> \<open>\<open>if row[col]: try: x = json.loads(row[col]) except JSONDecodeError: pass\<close>, from
      \<open>x = None\<close>\<close>
  "json_loads_or_none cell =
     (case cell of None \<Rightarrow> PNone | Some (Malformed s) \<Rightarrow> PNone | Some (Encodes v) \<Rightarrow> v)"

definition validate_operation :: "string \<Rightarrow> error + OperationType" where
  "validate_operation s =
     (if s = ''INSERT'' then Inr INSERT else if s = ''UPDATE'' then Inr UPDATE
      else if s = ''DELETE'' then Inr DELETE else Inl (ValidationError ''operation''))"

fun validate_dict :: "pyval \<Rightarrow> error + py_dict option" where
  \<comment> \<open>a field of type \<open>Optional[Dict[str, Any]]\<close>\<close>
  "validate_dict PNone = Inr None"
| "validate_dict (PDict d) = Inr (Some d)"
| "validate_dict v = Inl (ValidationError ''dict'')"

definition row_to_audit_log :: "audit_row \<Rightarrow> error + AuditLog" where
  "row_to_audit_log r =
     (case validate_operation (r_operation r) of
        Inl e \<Rightarrow> Inl e
      | Inr op \<Rightarrow>
          (case validate_dict (json_loads_or_none (r_before_data r)) of
             Inl e \<Rightarrow> Inl e
           | Inr before \<Rightarrow>
               (case validate_dict (json_loads_or_none (r_after_data r)) of
                  Inl e \<Rightarrow> Inl e
                | Inr after \<Rightarrow>
                    new_AuditLog (r_id r) (r_table_name r) op (r_row_id r) before after
                      (r_created_at r) None (r_retry_count r))))"

text \<open>
  The loop of \<open>fetch_batch\<close> over the fetched rows. The cursor is updated as each event is
  appended, so an exception raised by a later row leaves it advanced.
\<close>

fun convert_rows ::
  "int \<Rightarrow> ChangeEvent list \<Rightarrow> audit_row list \<Rightarrow> int \<times> (error + ChangeEvent list)" where
  "convert_rows cur events [] = (cur, Inr events)"
| "convert_rows cur events (r # rs) =
     (case row_to_audit_log r of
        Inl e \<Rightarrow> (cur, Inl e)
      | Inr a \<Rightarrow>
          (case to_change_event a of
             Inl e \<Rightarrow> (cur, Inl e)
           | Inr ev \<Rightarrow>
               convert_rows (if cur < audit_id ev then audit_id ev else cur)
                 (events @ [ev]) rs))"

definition fetch_batch :: "source_db \<Rightarrow> AuditReader \<Rightarrow> AuditReader \<times> (error + ChangeEvent list)" where
  "fetch_batch db rd =
     (if \<not> rd_running rd then (rd, Inr [])
      else
        (let rows = fetch_unconsumed db (rd_last_audit_id rd) (rd_batch_size rd)
         in if rows = [] then (rd, Inr [])
            else (case convert_rows (rd_last_audit_id rd) [] rows of
                    (cur, res) \<Rightarrow> (rd\<lparr>rd_last_audit_id := cur\<rparr>, res))))"

text \<open>A row of the audit table for the table \<open>users\<close>, used in the examples below.\<close>

definition users_row ::
  "int \<Rightarrow> string \<Rightarrow> json_text option \<Rightarrow> json_text option \<Rightarrow> datetime option \<Rightarrow> audit_row" where
  "users_row i op before after consumed =
     \<lparr>r_id = i, r_table_name = ''users'', r_operation = op, r_row_id = Some (py_str_int i),
      r_before_data = before, r_after_data = after, r_created_at = 0,
      r_consumed_at = consumed, r_retry_count = 0\<rparr>"

definition row_image :: "int \<Rightarrow> json_text option" where
  \<comment> \<open>the JSON text of the row image \<open>{"id": i}\<close>\<close>
  "row_image i = Some (Encodes (PDict [(''id'', PInt i)]))"

section \<open>Checkpoint store and engine (storage/checkpoint.py, core/engine.py)\<close>

record SyncPosition =
  sp_last_audit_id :: int
  sp_total_events :: int

definition new_SyncPosition :: "int \<Rightarrow> int \<Rightarrow> error + SyncPosition" where
  \<comment> \<open>the constructor, with the field constraints \<open>last_audit_id >= 0\<close> and
      \<open>total_events >= 0\<close>\<close>
  "new_SyncPosition l tot =
     (if l < 0 then Inl (ValidationError ''last_audit_id'')
      else if tot < 0 then Inl (ValidationError ''total_events'')
      else Inr \<lparr>sp_last_audit_id = l, sp_total_events = tot\<rparr>)"

text \<open>The table \<open>sync_positions\<close>, unique on \<open>(source_db_path, target_name)\<close>.\<close>

type_synonym sync_positions = "string \<times> string \<Rightarrow> SyncPosition option"

definition save_position ::
  "string \<Rightarrow> string \<Rightarrow> SyncPosition \<Rightarrow> sync_positions \<Rightarrow> sync_positions" where
  \<comment> \<open>\<open>INSERT OR REPLACE INTO sync_positions\<close>\<close>
  "save_position src tgt p tbl = tbl((src, tgt) \<mapsto> p)"

definition load_position :: "string \<Rightarrow> string \<Rightarrow> sync_positions \<Rightarrow> SyncPosition" where
  "load_position src tgt tbl =
     (case tbl (src, tgt) of
        Some p \<Rightarrow> p
      | None \<Rightarrow> \<lparr>sp_last_audit_id = 0, sp_total_events = 0\<rparr>)"

record TableMapping =
  source_table :: string
  target_table :: "string option"
  primary_key :: string

definition get_table_mapping :: "TableMapping list \<Rightarrow> string \<Rightarrow> TableMapping option" where
  "get_table_mapping ms name = find (\<lambda>m. source_table m = name) ms"

definition get_target_table :: "TableMapping \<Rightarrow> string" where
  \<comment> \<open>\<open>self.mapping.target_table or self.mapping.source_table\<close>\<close>
  "get_target_table m =
     (case target_table m of None \<Rightarrow> source_table m
      | Some t \<Rightarrow> if t = [] then source_table m else t)"

text \<open>
  A call on a target writer, and the behaviour of the writers: \<open>None\<close> when the call
  returns, \<open>Some e\<close> when it raises \<open>e\<close> (after the writer's own retries).
\<close>

datatype target_call = BatchUpsert string "py_dict list" | Delete string row_key

type_synonym writers = "string \<Rightarrow> target_call \<Rightarrow> error option"

datatype SyncState = IDLE | RUNNING | PAUSED | ERROR | COMPLETED

record table_stat =
  n_events :: int
  n_inserts :: int
  n_updates :: int
  n_deletes :: int

record SyncStatus =
  state :: SyncState
  total_events :: int
  table_stats :: "(string \<times> table_stat) list"
  last_error :: "string option"

fun error_message :: "error \<Rightarrow> string" where
  "error_message (ValidationError s) = s"
| "error_message (ValueError s) = s"
| "error_message (TypeError s) = s"
| "error_message (DriverError s) = s"

definition record_error :: "string \<Rightarrow> SyncStatus \<Rightarrow> SyncStatus" where
  "record_error msg st = st\<lparr>last_error := Some msg, state := ERROR\<rparr>"

text \<open>
  The engine. \<open>DataTransformer.transform\<close> is a parameter (\<open>transformer\<close>): a total function
  of the mapping and the row. \<open>writes\<close> lists the calls made on the target writers with
  their outcomes, in order; \<open>consumed_ids\<close> is the list of that name in
  \<open>_run_incremental_sync\<close>, which lives across the iterations of the consume loop.
\<close>

record SyncEngine =
  source_db_path :: string
  target_names :: "string list"
  mappings :: "TableMapping list"
  config_batch_size :: int
  transformer :: "TableMapping \<Rightarrow> py_dict \<Rightarrow> py_dict"
  status :: SyncStatus
  positions :: sync_positions
  source :: source_db
  audit_reader :: AuditReader
  consumed_ids :: "int list"
  writes :: "(string \<times> target_call \<times> error option) list"

definition gather :: "writers \<Rightarrow> target_call \<Rightarrow> SyncEngine \<Rightarrow> SyncEngine" where
  \<comment> \<open>\<open>asyncio.gather(*tasks, return_exceptions=True)\<close> over all targets; the list of
      results is dropped by the caller\<close>
  "gather w call eng =
     eng\<lparr>writes := writes eng @ map (\<lambda>t. (t, call, w t call)) (target_names eng)\<rparr>"

definition stat_of :: "(string \<times> table_stat) list \<Rightarrow> string \<Rightarrow> table_stat" where
  "stat_of tbl name =
     (case map_of tbl name of
        None \<Rightarrow> \<lparr>n_events = 0, n_inserts = 0, n_updates = 0, n_deletes = 0\<rparr>
      | Some s \<Rightarrow> s)"

definition put_stat ::
  "string \<Rightarrow> table_stat \<Rightarrow> (string \<times> table_stat) list \<Rightarrow> (string \<times> table_stat) list" where
  "put_stat name s tbl =
     (if name \<in> fst ` set tbl then map (\<lambda>(k, v). if k = name then (k, s) else (k, v)) tbl
      else tbl @ [(name, s)])"

definition count_op :: "OperationType \<Rightarrow> ChangeEvent list \<Rightarrow> int" where
  "count_op op evs = int (length (filter (\<lambda>e. operation e = op) evs))"

definition update_stats :: "string \<Rightarrow> ChangeEvent list \<Rightarrow> SyncStatus \<Rightarrow> SyncStatus" where
  "update_stats name evs st =
     (let s = stat_of (table_stats st) name
      in st\<lparr>table_stats :=
              put_stat name
                \<lparr>n_events = n_events s + int (length evs), n_inserts = n_inserts s + count_op INSERT evs,
                 n_updates = n_updates s + count_op UPDATE evs,
                 n_deletes = n_deletes s + count_op DELETE evs\<rparr>
                (table_stats st)\<rparr>)"

definition process_table_events ::
  "writers \<Rightarrow> string \<Rightarrow> ChangeEvent list \<Rightarrow> SyncEngine \<Rightarrow> SyncEngine" where
  "process_table_events w name evs eng =
     (case get_table_mapping (mappings eng) name of
        None \<Rightarrow> eng
      | Some m \<Rightarrow>
          (let tgt = get_target_table m;
               rows = map (\<lambda>e. transformer eng m (case after_data e of None \<Rightarrow> [] | Some d \<Rightarrow> d))
                        (filter (\<lambda>e. operation e \<noteq> DELETE) evs);
               eng1 = (if rows \<noteq> [] then gather w (BatchUpsert tgt rows) eng else eng);
               eng2 = fold (\<lambda>e. gather w (Delete tgt (row_id e)))
                        (filter (\<lambda>e. operation e = DELETE) evs) eng1
           in eng2\<lparr>status := update_stats name evs (status eng2)\<rparr>))"

fun setdefault_append :: "string \<Rightarrow> 'a \<Rightarrow> (string \<times> 'a list) list \<Rightarrow> (string \<times> 'a list) list" where
  \<comment> \<open>\<open>d.setdefault(k, []).append(v)\<close> on a dict in insertion order\<close>
  "setdefault_append k v [] = [(k, [v])]"
| "setdefault_append k v ((k', vs) # rest) =
     (if k = k' then (k', vs @ [v]) # rest else (k', vs) # setdefault_append k v rest)"

definition by_table :: "ChangeEvent list \<Rightarrow> (string \<times> ChangeEvent list) list" where
  "by_table evs = fold (\<lambda>e. setdefault_append (table_name e) e) evs []"

definition process_events :: "writers \<Rightarrow> ChangeEvent list \<Rightarrow> SyncEngine \<Rightarrow> SyncEngine" where
  "process_events w evs eng =
     (let eng1 = fold (\<lambda>(name, tevs) s.
                    (process_table_events w name tevs s)
                      \<lparr>consumed_ids := consumed_ids s @ map audit_id tevs\<rparr>)
                  (by_table evs) eng
      in eng1\<lparr>status := (status eng1)\<lparr>total_events := total_events (status eng1)
                                              + int (length evs)\<rparr>\<rparr>)"

fun save_all ::
  "string \<Rightarrow> int \<Rightarrow> int \<Rightarrow> string list \<Rightarrow> sync_positions \<Rightarrow> sync_positions \<times> error option" where
  "save_all src max_id tot [] ps = (ps, None)"
| "save_all src max_id tot (t # ts) ps =
     (case new_SyncPosition max_id tot of
        Inl e \<Rightarrow> (ps, Some e)
      | Inr p \<Rightarrow> save_all src max_id tot ts (save_position src t p ps))"

definition save_checkpoints :: "int list \<Rightarrow> SyncEngine \<Rightarrow> SyncEngine \<times> error option" where
  \<comment> \<open>\<open>max_id = max(audit_ids)\<close>, then one \<open>save_position\<close> per target\<close>
  "save_checkpoints audit_ids eng =
     (case audit_ids of
        [] \<Rightarrow> (eng, None)
      | x # xs \<Rightarrow>
          (case save_all (source_db_path eng) (fold max xs x) (total_events (status eng))
                  (target_names eng) (positions eng) of
             (ps, err) \<Rightarrow> (eng\<lparr>positions := ps\<rparr>, err)))"

definition loop_iteration :: "writers \<Rightarrow> SyncEngine \<Rightarrow> SyncEngine" where
  \<comment> \<open>one pass through the body of the consume loop, its \<open>except\<close> handler included\<close>
  "loop_iteration w eng =
     (case fetch_batch (source eng) (audit_reader eng) of
        (rd, Inl e) \<Rightarrow>
          eng\<lparr>audit_reader := rd, status := record_error (error_message e) (status eng)\<rparr>
      | (rd, Inr evs) \<Rightarrow>
          (let eng1 = eng\<lparr>audit_reader := rd\<rparr>
           in if evs = [] then eng1
              else
                (let eng2 = process_events w evs eng1
                 in if consumed_ids eng2 = [] then eng2
                    else
                      (case save_checkpoints (consumed_ids eng2) eng2 of
                         (eng3, Some e) \<Rightarrow>
                           eng3\<lparr>status := record_error (error_message e) (status eng3)\<rparr>
                       | (eng3, None) \<Rightarrow> eng3\<lparr>consumed_ids := []\<rparr>))))"

definition start_id :: "SyncEngine \<Rightarrow> int" where
  \<comment> \<open>\<open>min(start_positions.values()) if start_positions else 0\<close>\<close>
  "start_id eng =
     (case map (\<lambda>t. sp_last_audit_id (load_position (source_db_path eng) t (positions eng)))
             (target_names eng) of
        [] \<Rightarrow> 0
      | x # xs \<Rightarrow> fold min xs x)"

definition start_incremental :: "SyncEngine \<Rightarrow> SyncEngine" where
  \<comment> \<open>\<open>_run_incremental_sync\<close> up to the consume loop\<close>
  "start_incremental eng =
     eng\<lparr>audit_reader :=
           reader_start (start_id eng)
             \<lparr>rd_batch_size = config_batch_size eng, rd_running = False, rd_last_audit_id = 0\<rparr>,
         consumed_ids := []\<rparr>"

text \<open>
  A run of the consume loop: before each iteration the environment fixes what the source
  connection holds (the capture side appends rows at any time) and how the writers behave.
\<close>

record world =
  w_source :: source_db
  w_writers :: writers

fun run_iterations :: "world list \<Rightarrow> SyncEngine \<Rightarrow> SyncEngine" where
  "run_iterations [] eng = eng"
| "run_iterations (w # ws) eng =
     run_iterations ws (loop_iteration (w_writers w) (eng\<lparr>source := w_source w\<rparr>))"

definition stored_id :: "SyncEngine \<Rightarrow> string \<Rightarrow> int" where
  \<comment> \<open>the \<open>last_audit_id\<close> that \<open>load_position\<close> returns for a target\<close>
  "stored_id eng t = sp_last_audit_id (load_position (source_db_path eng) t (positions eng))"

text \<open>An engine with the targets \<open>A\<close> and \<open>B\<close> and a mapping for \<open>users\<close>, for the examples.\<close>

definition example_engine :: "sync_positions \<Rightarrow> audit_row list \<Rightarrow> SyncEngine" where
  "example_engine ps rows =
     \<lparr>source_db_path = ''app.db'', target_names = [''A'', ''B''],
      mappings = [\<lparr>source_table = ''users'', target_table = Some ''users_backup'',
                   primary_key = ''id''\<rparr>],
      config_batch_size = 100, transformer = (\<lambda>m row. row),
      status = \<lparr>state = RUNNING, total_events = 0, table_stats = [], last_error = None\<rparr>,
      positions = ps, source = \<lparr>audit_rows = rows, db_fails = False\<rparr>,
      audit_reader = \<lparr>rd_batch_size = 100, rd_running = False, rd_last_audit_id = 0\<rparr>,
      consumed_ids = [], writes = []\<rparr>"

definition B_fails :: writers where
  \<comment> \<open>target \<open>B\<close> raises on every call, target \<open>A\<close> never\<close>
  "B_fails t call = (if t = ''B'' then Some (DriverError ''connection refused'') else None)"

definition all_succeed :: writers where
  "all_succeed t call = None"

definition three_inserts :: "audit_row list" where
  \<comment> \<open>the unconsumed audit rows 1, 2, 3, each an INSERT into \<open>users\<close>\<close>
  "three_inserts =
     [users_row 1 ''INSERT'' None (row_image 1) None,
      users_row 2 ''INSERT'' None (row_image 2) None,
      users_row 3 ''INSERT'' None (row_image 3) None]"

definition A_at_10 :: sync_positions where
  \<comment> \<open>a checkpoint store in which target \<open>A\<close> stands at 10 and target \<open>B\<close> has no row\<close>
  "A_at_10 = [(''app.db'', ''A'') \<mapsto> \<lparr>sp_last_audit_id = 10, sp_total_events = 10\<rparr>]"

text \<open>
  The invariant behind checkpoint monotonicity: the stored id of the target and the ids
  waiting in \<open>consumed_ids\<close> do not exceed the reader's cursor.
\<close>

definition cursor_inv :: "SyncEngine \<Rightarrow> string \<Rightarrow> bool" where
  "cursor_inv eng t \<longleftrightarrow>
     stored_id eng t \<le> rd_last_audit_id (audit_reader eng) \<and>
     (\<forall>i\<in>set (consumed_ids eng). i \<le> rd_last_audit_id (audit_reader eng))"

section \<open>SQL classifier (utils/sql_parser.py)\<close>

definition latin1_lower :: string where
  \<comment> \<open>the lower-case letters from 224 to 254 (all but the division sign 247)\<close>
  "latin1_lower = [
      CHR 0xE0, CHR 0xE1, CHR 0xE2, CHR 0xE3, CHR 0xE4, CHR 0xE5, CHR 0xE6, CHR 0xE7,
      CHR 0xE8, CHR 0xE9, CHR 0xEA, CHR 0xEB, CHR 0xEC, CHR 0xED, CHR 0xEE, CHR 0xEF,
      CHR 0xF0, CHR 0xF1, CHR 0xF2, CHR 0xF3, CHR 0xF4, CHR 0xF5, CHR 0xF6, CHR 0xF8,
      CHR 0xF9, CHR 0xFA, CHR 0xFB, CHR 0xFC, CHR 0xFD, CHR 0xFE]"

definition latin1_upper :: string where
  \<comment> \<open>their capitals, 32 below\<close>
  "latin1_upper = [
      CHR 0xC0, CHR 0xC1, CHR 0xC2, CHR 0xC3, CHR 0xC4, CHR 0xC5, CHR 0xC6, CHR 0xC7,
      CHR 0xC8, CHR 0xC9, CHR 0xCA, CHR 0xCB, CHR 0xCC, CHR 0xCD, CHR 0xCE, CHR 0xCF,
      CHR 0xD0, CHR 0xD1, CHR 0xD2, CHR 0xD3, CHR 0xD4, CHR 0xD5, CHR 0xD6, CHR 0xD8,
      CHR 0xD9, CHR 0xDA, CHR 0xDB, CHR 0xDC, CHR 0xDD, CHR 0xDE]"

definition py_upper_char :: "char \<Rightarrow> string" where
  \<comment> \<open>\<open>c.upper()\<close> below code point 256: the sharp s (223) becomes \<open>SS\<close>; the two letters
      whose capital lies above 255 (181 and 255) are left as they are, which no comparison
      with ASCII text can tell from the capital\<close>
  "py_upper_char c =
     (if c = CHR 0xDF then ''SS''
      else (case map_of (zip (''abcdefghijklmnopqrstuvwxyz'' @ latin1_lower)
                             (''ABCDEFGHIJKLMNOPQRSTUVWXYZ'' @ latin1_upper)) c of
              Some u \<Rightarrow> [u]
            | None \<Rightarrow> [c]))"

definition py_upper :: "string \<Rightarrow> string" where
  \<comment> \<open>\<open>str.upper()\<close>\<close>
  "py_upper s = concat (map py_upper_char s)"

definition startswith :: "string \<Rightarrow> string \<Rightarrow> bool" where
  "startswith s p = (take (length p) s = p)"

definition parse_operation :: "string \<Rightarrow> string option" where
  "parse_operation sql =
     (let sql_upper = py_upper (py_strip sql)
      in if startswith sql_upper ''INSERT'' then Some ''INSERT''
         else if startswith sql_upper ''UPDATE'' then Some ''UPDATE''
         else if startswith sql_upper ''DELETE'' then Some ''DELETE''
         else None)"

text \<open>
  The token list that \<open>sqlparse\<close> produces for a statement, as far as the extraction
  functions look at it: the text of a token, whether it is whitespace, whether it is an
  \<open>Identifier\<close> or a \<open>Function\<close> group, its \<open>ttype\<close>, and what \<open>get_real_name()\<close> returns.
  The two libraries are parameters: \<open>sqlparse.parse\<close> (which may raise), and
  \<open>_extract_with_regex\<close>, whose body consists of calls of \<open>re.sub\<close> and \<open>re.search\<close>.
  The source compares \<open>ttype\<close> with \<open>is\<close> and with membership in a tuple, so \<open>Keyword\<close> and
  \<open>Name\<close> stand for exactly these two token types; every other type, their subtypes
  included, is \<open>OtherType\<close>.
\<close>

datatype token_class = Identifier | Function | OtherClass
datatype token_ttype = Keyword | Name | OtherType

record token =
  tok_value :: string
  is_whitespace :: bool
  tok_class :: token_class
  ttype :: token_ttype
  get_real_name :: "string option"

record sql_libs =
  sqlparse_parse :: "string \<Rightarrow> error + token list list"
  extract_with_regex :: "string \<Rightarrow> string \<Rightarrow> string option"

definition strip_chars :: "string \<Rightarrow> string \<Rightarrow> string" where
  \<comment> \<open>\<open>s.strip(chars)\<close>\<close>
  "strip_chars chars s =
     rev (dropWhile (\<lambda>c. c \<in> set chars) (rev (dropWhile (\<lambda>c. c \<in> set chars) s)))"

definition quote_chars :: string where
  "quote_chars = [CHR 0x22, CHR 0x27, CHR 0x60]"

definition real_name_result :: "token \<Rightarrow> string option" where
  \<comment> \<open>\<open>name = token.get_real_name(); return str(name) if name else None\<close>\<close>
  "real_name_result t =
     (case get_real_name t of None \<Rightarrow> None | Some n \<Rightarrow> if n = [] then None else Some n)"

fun extract_from_insert :: "bool \<Rightarrow> token list \<Rightarrow> string option" where
  "extract_from_insert found_into [] = None"
| "extract_from_insert found_into (t # ts) =
     (if is_whitespace t then extract_from_insert found_into ts
      else if \<not> found_into then extract_from_insert (py_upper (tok_value t) = ''INTO'') ts
      else if tok_class t = Identifier \<or> tok_class t = Function then
        (let raw = tok_value t;
             raw' = (if CHR ''('' \<in> set raw
                     then py_strip (takeWhile (\<lambda>c. c \<noteq> CHR ''('') raw) else raw)
         in Some (strip_chars quote_chars raw'))
      else Some (strip_chars quote_chars (tok_value t)))"

fun extract_from_update :: "bool \<Rightarrow> token list \<Rightarrow> string option" where
  "extract_from_update found_update [] = None"
| "extract_from_update found_update (t # ts) =
     (if is_whitespace t then extract_from_update found_update ts
      else if \<not> found_update then extract_from_update (py_upper (tok_value t) = ''UPDATE'') ts
      else if tok_class t = Identifier then real_name_result t
      else Some (strip_chars quote_chars (tok_value t)))"

fun extract_from_delete :: "bool \<Rightarrow> token list \<Rightarrow> string option" where
  "extract_from_delete found_from [] = None"
| "extract_from_delete found_from (t # ts) =
     (if is_whitespace t then extract_from_delete found_from ts
      else if \<not> found_from then
        extract_from_delete (ttype t = Keyword \<and> py_upper (tok_value t) = ''FROM'') ts
      else if tok_class t = Identifier then real_name_result t
      else if ttype t = Name \<or> ttype t = Keyword
        then Some (strip_chars quote_chars (tok_value t))
      else None)"

definition extract_table_name :: "sql_libs \<Rightarrow> string \<Rightarrow> string option" where
  "extract_table_name libs sql =
     (case parse_operation sql of
        None \<Rightarrow> None
      | Some op \<Rightarrow>
          (case sqlparse_parse libs sql of
             Inl e \<Rightarrow> extract_with_regex libs sql op
           | Inr [] \<Rightarrow> None
           | Inr (stmt # rest) \<Rightarrow>
               (let tokens = filter (\<lambda>t. \<not> is_whitespace t) stmt
                in if op = ''INSERT'' then extract_from_insert False tokens
                   else if op = ''UPDATE'' then extract_from_update False tokens
                   else if op = ''DELETE'' then extract_from_delete False tokens
                   else None)))"

definition parse_sql :: "sql_libs \<Rightarrow> string \<Rightarrow> string option \<times> string option" where
  "parse_sql libs sql =
     (case parse_operation sql of
        None \<Rightarrow> (None, None)
      | Some op \<Rightarrow> (Some op, extract_table_name libs sql))"

section \<open>Capture interceptor (core/connection.py)\<close>

text \<open>
  Values that SQLite stores and that \<open>sqlite3\<close> accepts as parameters, rows as dictionaries
  from column name to value, and the \<open>parameters\<close> argument of \<open>execute\<close> as the caller may
  pass it. A BLOB (\<open>bytes\<close>) is given by the text that \<open>str()\<close> prints for it, the only
  thing the interceptor reads of it; \<open>json.dumps\<close> refuses it. REAL is left out: \<open>str\<close> and
  \<open>json.dumps\<close> take a float as they take an integer. An integer read from the database
  has 64 bits, so \<open>str()\<close> never refuses it; one passed as a parameter may be too long.
\<close>

datatype sql_value = SqlNull | SqlInt int | SqlText string | SqlBlob string

type_synonym sql_row = "(string \<times> sql_value) list"

fun py_str_value :: "sql_value \<Rightarrow> string" where
  \<comment> \<open>\<open>str(v)\<close>\<close>
  "py_str_value SqlNull = ''None''"
| "py_str_value (SqlInt i) = py_str_int i"
| "py_str_value (SqlText s) = s"
| "py_str_value (SqlBlob t) = t"

fun value_str_ok :: "sql_value \<Rightarrow> bool" where
  \<comment> \<open>\<open>str(v)\<close> does not raise\<close>
  "value_str_ok (SqlInt i) = str_digits_ok i"
| "value_str_ok v = True"

fun to_pyval :: "sql_value \<Rightarrow> pyval option" where
  \<comment> \<open>the value as \<open>json\<close> serialises it; \<open>None\<close> for \<open>bytes\<close>, which it does not\<close>
  "to_pyval SqlNull = Some PNone"
| "to_pyval (SqlInt i) = Some (PInt i)"
| "to_pyval (SqlText s) = Some (PStr s)"
| "to_pyval (SqlBlob t) = None"

fun dump_items :: "sql_row \<Rightarrow> error + py_dict" where
  "dump_items [] = Inr []"
| "dump_items ((k, v) # row) =
     (case to_pyval v of
        None \<Rightarrow> Inl (TypeError ''Object of type bytes is not JSON serializable'')
      | Some p \<Rightarrow> (case dump_items row of Inl e \<Rightarrow> Inl e | Inr d \<Rightarrow> Inr ((k, p) # d)))"

definition json_dumps :: "sql_row \<Rightarrow> error + json_text" where
  \<comment> \<open>the text \<open>json.dumps(row)\<close>, which \<open>json.loads\<close> parses back to the dictionary;
      \<open>TypeError\<close> when a value is \<open>bytes\<close>\<close>
  "json_dumps row = (case dump_items row of Inl e \<Rightarrow> Inl e | Inr d \<Rightarrow> Inr (Encodes (PDict d)))"

datatype parameters = ParamTuple "sql_value list" | ParamList "sql_value list"
  | ParamDict sql_row | ParamOther

fun convert_parameters :: "parameters \<Rightarrow> sql_value list" where
  "convert_parameters (ParamTuple xs) = xs"
| "convert_parameters (ParamList xs) = xs"
| "convert_parameters (ParamDict d) = map snd d"
| "convert_parameters ParamOther = []"

text \<open>
  The statements the interceptor sends to the underlying connection:
  the caller's statement with the converted parameters;
  \<open>SELECT * FROM {table_name} WHERE {where_clause} LIMIT 1\<close> with the same parameters;
  \<open>SELECT * FROM {table_name} WHERE ROWID = ?\<close> with \<open>(row_id,)\<close>; and
  \<open>INSERT INTO {audit_table} (table_name, operation, row_id, before_data, after_data)\<close>
  with its five values. A table name that the classifier did not find is \<open>None\<close>.
\<close>

datatype statement =
    Business string "sql_value list"
  | SelectBefore "string option" string "sql_value list"
  | SelectAfter "string option" string
  | InsertAudit string "string option" string "string option" "json_text option" "json_text option"

record cursor =
  fetchone :: "sql_row option"
  lastrowid :: "int option"

text \<open>
  The underlying \<open>sqlite3\<close> connection: a statement run in a database state raises, or
  yields the next state and a cursor. The interceptor's state pairs the database with the
  list of statements it has sent, each with the error it raised, if any.
\<close>

type_synonym 'db driver = "'db \<Rightarrow> statement \<Rightarrow> error + ('db \<times> cursor)"
type_synonym 'db conn_state = "'db \<times> (statement \<times> error option) list"

definition conn_execute ::
  "'db driver \<Rightarrow> statement \<Rightarrow> 'db conn_state \<Rightarrow> 'db conn_state \<times> (error + cursor)" where
  "conn_execute drv stmt st =
     (case st of (db, sent) \<Rightarrow>
        (case drv db stmt of
           Inl e \<Rightarrow> ((db, sent @ [(stmt, Some e)]), Inl e)
         | Inr (db', cur) \<Rightarrow> ((db', sent @ [(stmt, None)]), Inr cur)))"

record CDCConnection =
  audit_table :: string
  enabled_tables :: "string list"

definition should_audit :: "CDCConnection \<Rightarrow> string option \<Rightarrow> bool" where
  "should_audit c tbl =
     (if enabled_tables c = [] then True
      else (case tbl of None \<Rightarrow> False | Some t \<Rightarrow> t \<in> set (enabled_tables c)))"

fun py_find :: "string \<Rightarrow> string \<Rightarrow> nat option" where
  \<comment> \<open>\<open>s.find(sub)\<close>: the first index at which \<open>sub\<close> occurs, \<open>None\<close> for \<open>-1\<close>\<close>
  "py_find [] sub = (if sub = [] then Some 0 else None)"
| "py_find (c # cs) sub =
     (if startswith (c # cs) sub then Some 0 else map_option Suc (py_find cs sub))"

fun cut_at_keyword :: "string list \<Rightarrow> string \<Rightarrow> string" where
  \<comment> \<open>the \<open>for keyword in [...]\<close> loop: cut at the first keyword of the list that occurs\<close>
  "cut_at_keyword [] where_part = where_part"
| "cut_at_keyword (kw # kws) where_part =
     (case py_find (py_upper where_part) kw of
        Some i \<Rightarrow> take i where_part
      | None \<Rightarrow> cut_at_keyword kws where_part)"

definition extract_where_clause :: "string \<Rightarrow> string option" where
  "extract_where_clause sql =
     (case py_find (py_upper sql) ''WHERE'' of
        None \<Rightarrow> None
      | Some where_idx \<Rightarrow>
          Some (py_strip (cut_at_keyword ['' ORDER BY'', '' GROUP BY'', '' LIMIT'', '' OFFSET'']
                            (drop (where_idx + 5) sql))))"

definition truthy_row :: "sql_row option \<Rightarrow> sql_row option" where
  \<comment> \<open>\<open>if row: return _row_to_dict(row, cursor)\<close>, else \<open>None\<close>\<close>
  "truthy_row r = (case r of None \<Rightarrow> None | Some d \<Rightarrow> if d = [] then None else Some d)"

definition str_or_none :: "string option \<Rightarrow> string" where
  \<comment> \<open>how an f-string renders an optional table name\<close>
  "str_or_none t = (case t of None \<Rightarrow> ''None'' | Some s \<Rightarrow> s)"

definition fetch_before_data ::
  "'db driver \<Rightarrow> string \<Rightarrow> sql_value list \<Rightarrow> string option \<Rightarrow> 'db conn_state \<Rightarrow>
   'db conn_state \<times> sql_row option" where
  "fetch_before_data drv sql params tbl st =
     (case extract_where_clause sql of
        None \<Rightarrow> (st, None)
      | Some where_clause \<Rightarrow>
          if where_clause = [] then (st, None)
          else (case conn_execute drv (SelectBefore tbl where_clause params) st of
                  (st', Inl e) \<Rightarrow> (st', None)
                | (st', Inr cur) \<Rightarrow> (st', truthy_row (fetchone cur))))"

definition fetch_after_data ::
  "'db driver \<Rightarrow> string option \<Rightarrow> string option \<Rightarrow> 'db conn_state \<Rightarrow>
   'db conn_state \<times> sql_row option" where
  "fetch_after_data drv tbl rid st =
     (case rid of
        None \<Rightarrow> (st, None)
      | Some r \<Rightarrow>
          (case conn_execute drv (SelectAfter tbl r) st of
             (st', Inl e) \<Rightarrow> (st', None)
           | (st', Inr cur) \<Rightarrow> (st', truthy_row (fetchone cur))))"

definition py_contains :: "string \<Rightarrow> string \<Rightarrow> bool" where
  \<comment> \<open>\<open>sub in s\<close>\<close>
  "py_contains s sub = (py_find s sub \<noteq> None)"

definition second_part :: "string \<Rightarrow> string \<Rightarrow> string" where
  \<comment> \<open>\<open>s.split(sep)[1]\<close> for an \<open>s\<close> that contains \<open>sep\<close>\<close>
  "second_part s sep =
     (case py_find s sep of
        None \<Rightarrow> []
      | Some i \<Rightarrow>
          (let rest = drop (i + length sep) s
           in case py_find rest sep of None \<Rightarrow> rest | Some j \<Rightarrow> take j rest))"

definition extract_row_id_from_where ::
  "string \<Rightarrow> sql_value list \<Rightarrow> sql_row option \<Rightarrow> string option" where
  \<comment> \<open>the \<open>try\<close> block turns a \<open>str(params[0])\<close> that raises into \<open>None\<close>\<close>
  "extract_row_id_from_where sql params before_image =
     (case (case before_image of None \<Rightarrow> None | Some d \<Rightarrow> map_of d ''ROWID'') of
        Some v \<Rightarrow> Some (py_str_value v)
      | None \<Rightarrow>
          (case extract_where_clause sql of
             None \<Rightarrow> None
           | Some where_clause \<Rightarrow>
               if where_clause \<noteq> [] \<and> py_contains (py_upper where_clause) ''ROWID'' \<and>
                  py_contains (second_part (py_upper where_clause) ''ROWID'') ''=''
               then (case params of
                       [] \<Rightarrow> None
                     | p # ps \<Rightarrow> if value_str_ok p then Some (py_str_value p) else None)
               else None))"

definition dumps_or_none :: "sql_row option \<Rightarrow> error + json_text option" where
  \<comment> \<open>\<open>json.dumps(data) if data else None\<close>\<close>
  "dumps_or_none data =
     (case data of
        None \<Rightarrow> Inr None
      | Some d \<Rightarrow>
          if d = [] then Inr None
          else (case json_dumps d of Inl e \<Rightarrow> Inl e | Inr t \<Rightarrow> Inr (Some t)))"

definition write_audit_log ::
  "'db driver \<Rightarrow> CDCConnection \<Rightarrow> string option \<Rightarrow> string \<Rightarrow> string option \<Rightarrow>
   sql_row option \<Rightarrow> sql_row option \<Rightarrow> 'db conn_state \<Rightarrow> 'db conn_state \<times> (error + unit)" where
  \<comment> \<open>the two \<open>json.dumps\<close> and the INSERT are inside the \<open>try\<close>, whose \<open>except\<close> clause
      logs and re-raises\<close>
  "write_audit_log drv c tbl op rid before_image after_image st =
     (case dumps_or_none before_image of
        Inl e \<Rightarrow> (st, Inl e)
      | Inr b \<Rightarrow>
          (case dumps_or_none after_image of
             Inl e \<Rightarrow> (st, Inl e)
           | Inr a \<Rightarrow>
               (case conn_execute drv (InsertAudit (audit_table c) tbl op rid b a) st of
                  (st', Inl e) \<Rightarrow> (st', Inl e)
                | (st', Inr cur) \<Rightarrow> (st', Inr ()))))"

definition execute_with_audit ::
  "'db driver \<Rightarrow> CDCConnection \<Rightarrow> string \<Rightarrow> parameters \<Rightarrow> string \<Rightarrow> string option \<Rightarrow>
   'db conn_state \<Rightarrow> 'db conn_state \<times> (error + cursor)" where
  "execute_with_audit drv c sql parameters op tbl st =
     (let params = convert_parameters parameters;
          (st1, before_image) =
             (if op = ''UPDATE'' \<or> op = ''DELETE'' then fetch_before_data drv sql params tbl st
              else (st, None));
          row_id1 =
             (if op = ''UPDATE'' \<or> op = ''DELETE''
              then extract_row_id_from_where sql params before_image else None)
      in case conn_execute drv (Business sql params) st1 of
           (st2, Inl e) \<Rightarrow> (st2, Inl e)
         | (st2, Inr cur) \<Rightarrow>
             (let row_id2 =
                    (if op = ''INSERT''
                     then (case lastrowid cur of
                             None \<Rightarrow> None
                           | Some n \<Rightarrow> if n = 0 then None else Some (py_str_int n))
                     else row_id1);
                  (st3, after_image) =
                    (if op = ''INSERT'' \<or> op = ''UPDATE'' then fetch_after_data drv tbl row_id2 st2
                     else (st2, None))
              in case write_audit_log drv c tbl op row_id2 before_image after_image st3 of
                   (st4, Inl e) \<Rightarrow> (st4, Inl e)
                 | (st4, Inr u) \<Rightarrow> (st4, Inr cur)))"

definition execute ::
  "'db driver \<Rightarrow> sql_libs \<Rightarrow> CDCConnection \<Rightarrow> string \<Rightarrow> parameters \<Rightarrow> 'db conn_state \<Rightarrow>
   'db conn_state \<times> (error + cursor)" where
  "execute drv libs c sql parameters st =
     (case parse_sql libs sql of
        (Some op, tbl) \<Rightarrow>
          if should_audit c tbl then execute_with_audit drv c sql parameters op tbl st
          else conn_execute drv (Business sql (convert_parameters parameters)) st
      | (None, tbl) \<Rightarrow> conn_execute drv (Business sql (convert_parameters parameters)) st)"

fun caller_params :: "statement \<Rightarrow> sql_value list option" where
  \<comment> \<open>the parameters of a statement that carries the caller's parameters\<close>
  "caller_params (Business q xs) = Some xs"
| "caller_params (SelectBefore t w xs) = Some xs"
| "caller_params (SelectAfter t r) = None"
| "caller_params (InsertAudit a t op r b af) = None"

fun is_image_fetch :: "statement \<Rightarrow> bool" where
  "is_image_fetch (SelectBefore t w xs) = True"
| "is_image_fetch (SelectAfter t r) = True"
| "is_image_fetch s = False"




text \<open>
  For the examples: a connection on which every image fetch raises and everything else
  succeeds (the database state counts the audit rows), and the tokens of an UPDATE of
  \<open>users\<close>.
\<close>

fun fetches_fail :: "nat driver" where
  "fetches_fail n (Business q xs) = Inr (n, \<lparr>fetchone = None, lastrowid = None\<rparr>)"
| "fetches_fail n (InsertAudit a t op r b af) =
     Inr (Suc n, \<lparr>fetchone = None, lastrowid = Some (int (Suc n))\<rparr>)"
| "fetches_fail n s = Inl (DriverError ''no such column'')"

definition update_users_libs :: sql_libs where
  "update_users_libs =
     \<lparr>sqlparse_parse = (\<lambda>sql. Inr [[
          \<lparr>tok_value = ''UPDATE'', is_whitespace = False, tok_class = OtherClass,
           ttype = Keyword, get_real_name = None\<rparr>,
          \<lparr>tok_value = '' '', is_whitespace = True, tok_class = OtherClass,
           ttype = OtherType, get_real_name = None\<rparr>,
          \<lparr>tok_value = ''users'', is_whitespace = False, tok_class = Identifier,
           ttype = OtherType, get_real_name = Some ''users''\<rparr>]]),
      extract_with_regex = (\<lambda>sql op. None)\<rparr>"



section \<open>Decimal conversions\<close>


lemma digit_char_props:
  assumes "d < 10"
  shows "is_digit (digit_char d)" "digit_val (digit_char d) = d"
    "\<not> is_int_space (digit_char d)" "digit_char d \<noteq> CHR '':''"
    "digit_char d \<noteq> CHR ''-''" "digit_char d \<noteq> CHR ''+''"
proof -
  from assms have d: "d = 0 \<or> d = 1 \<or> d = 2 \<or> d = 3 \<or> d = 4 \<or> d = 5 \<or> d = 6 \<or> d = 7 \<or> d = 8 \<or> d = 9"
    by arith
  from d show "is_digit (digit_char d)" by (auto simp: digit_char_def is_digit_def)
  from d show "digit_val (digit_char d) = d" by (auto simp: digit_char_def digit_val_def)
  from d show "\<not> is_int_space (digit_char d)" by (auto simp: digit_char_def is_int_space_def)
  from d show "digit_char d \<noteq> CHR '':''" by (auto simp: digit_char_def)
  from d show "digit_char d \<noteq> CHR ''-''" by (auto simp: digit_char_def)
  from d show "digit_char d \<noteq> CHR ''+''" by (auto simp: digit_char_def)
qed


lemma dec_body_digits: "\<forall>c\<in>set s. is_digit c \<Longrightarrow> dec_body acc s = Some (dec_fold acc s)"
  by (induction s arbitrary: acc) (simp_all add: dec_fold_def)

lemma nat_to_dec_small: "n < 10 \<Longrightarrow> nat_to_dec n = [digit_char n]"
  by (subst nat_to_dec.simps) simp

lemma nat_to_dec_digits: "\<forall>c\<in>set (nat_to_dec n). is_digit c \<and> \<not> is_int_space c \<and> c \<noteq> CHR '':''"
proof (induction n rule: nat_to_dec.induct)
  case (1 n)
  show ?case
  proof (cases "n < 10")
    case True
    then show ?thesis by (simp add: nat_to_dec_small digit_char_props)
  next
    case False
    have "n mod 10 < 10" by simp
    with False 1 show ?thesis
      by (subst nat_to_dec.simps) (simp add: digit_char_props)
  qed
qed

lemma nat_to_dec_nonempty: "nat_to_dec n \<noteq> []"
  by (subst nat_to_dec.simps) simp

lemma nat_to_dec_hd: "hd (nat_to_dec n) \<noteq> CHR ''-'' \<and> hd (nat_to_dec n) \<noteq> CHR ''+''"
proof (induction n rule: nat_to_dec.induct)
  case (1 n)
  show ?case
  proof (cases "n < 10")
    case True
    then show ?thesis by (simp add: nat_to_dec_small digit_char_props)
  next
    case False
    with 1 show ?thesis
      by (subst (1 2) nat_to_dec.simps) (simp add: nat_to_dec_nonempty)
  qed
qed

lemma dec_fold_nat_to_dec: "dec_fold 0 (nat_to_dec n) = n"
proof (induction n rule: nat_to_dec.induct)
  case (1 n)
  show ?case
  proof (cases "n < 10")
    case True
    then show ?thesis by (simp add: nat_to_dec_small dec_fold_def digit_char_props)
  next
    case False
    have "n mod 10 < 10" by simp
    then have "digit_val (digit_char (n mod 10)) = n mod 10" by (rule digit_char_props)
    with False 1 show ?thesis
      by (subst nat_to_dec.simps) (simp add: dec_fold_def)
  qed
qed

lemma dec_digits_nat_to_dec: "dec_digits (nat_to_dec n) = Some n"
proof -
  obtain c cs where cs: "nat_to_dec n = c # cs"
    using nat_to_dec_nonempty by (cases "nat_to_dec n") auto
  have dig: "\<forall>x\<in>set (c # cs). is_digit x" using nat_to_dec_digits [of n] cs by simp
  have "dec_body (digit_val c) cs = Some (dec_fold (digit_val c) cs)"
    using dig by (intro dec_body_digits) simp
  moreover have "dec_fold (digit_val c) cs = dec_fold 0 (c # cs)" by (simp add: dec_fold_def)
  ultimately show ?thesis using dig cs dec_fold_nat_to_dec [of n] by (simp add: dec_digits_def)
qed

lemma int_strip_no_space: "s \<noteq> [] \<Longrightarrow> \<forall>c\<in>set s. \<not> is_int_space c \<Longrightarrow> int_strip s = s"
proof -
  assume ne: "s \<noteq> []" and ns: "\<forall>c\<in>set s. \<not> is_int_space c"
  have a: "dropWhile is_int_space s = s" using ne ns by (cases s) auto
  have b: "dropWhile is_int_space (rev s) = rev s" using ne ns by (cases "rev s") auto
  show ?thesis by (simp add: int_strip_def a b)
qed

lemma filter_digits_nat_to_dec: "filter is_digit (nat_to_dec n) = nat_to_dec n"
  using nat_to_dec_digits [of n] by (simp add: filter_id_conv)

lemma py_int_nat_to_dec:
  assumes "length (nat_to_dec n) \<le> max_str_digits"
  shows "py_int (nat_to_dec n) = Some (int n)"
proof -
  obtain c cs where cs: "nat_to_dec n = c # cs"
    using nat_to_dec_nonempty by (cases "nat_to_dec n") auto
  have s: "int_strip (nat_to_dec n) = nat_to_dec n"
    using nat_to_dec_digits [of n] by (intro int_strip_no_space nat_to_dec_nonempty) simp
  have c: "c \<noteq> CHR ''-''" "c \<noteq> CHR ''+''" using nat_to_dec_hd [of n] cs by simp_all
  have l: "\<not> max_str_digits < length (filter is_digit (c # cs))"
    using assms filter_digits_nat_to_dec [of n] by (simp add: cs [symmetric])
  have "py_int (c # cs) = map_option int (dec_digits (c # cs))"
    using s c l unfolding py_int_def cs by simp
  then show ?thesis using dec_digits_nat_to_dec [of n] by (simp add: cs)
qed

lemma py_int_py_str_int:
  assumes "str_digits_ok i"
  shows "py_int (py_str_int i) = Some i"
proof (cases "i < 0")
  case False
  then have "nat \<bar>i\<bar> = nat i" by simp
  with assms False show ?thesis
    by (simp add: py_str_int_def py_int_nat_to_dec str_digits_ok_def)
next
  case True
  let ?d = "nat_to_dec (nat (- i))"
  have n: "nat \<bar>i\<bar> = nat (- i)" using True by simp
  have s: "int_strip (CHR ''-'' # ?d) = CHR ''-'' # ?d"
    using nat_to_dec_digits [of "nat (- i)"]
    by (intro int_strip_no_space) (auto simp: is_int_space_def)
  have "\<not> is_digit (CHR ''-'')" by (simp add: is_digit_def)
  then have l: "\<not> max_str_digits < length (filter is_digit (CHR ''-'' # ?d))"
    using assms n by (simp add: str_digits_ok_def filter_digits_nat_to_dec)
  have "py_int (CHR ''-'' # ?d) = map_option (\<lambda>n. - int n) (dec_digits ?d)"
    using s l unfolding py_int_def by simp
  with True show ?thesis
    by (simp add: py_str_int_def dec_digits_nat_to_dec)
qed

text \<open>What \<open>int()\<close> accepts has few enough digits for \<open>str\<close> to print it again.\<close>

lemma digit_val_less: "is_digit c \<Longrightarrow> digit_val c < 10"
  by (auto simp: is_digit_def digit_val_def)

lemma dec_body_bound:
  "dec_body acc cs = Some m \<Longrightarrow> acc < 10 ^ j \<Longrightarrow> m < 10 ^ (j + length (filter is_digit cs))"
proof (induction acc cs arbitrary: j rule: dec_body.induct)
  case (1 acc)
  then show ?case by simp
next
  case (2 acc c cs)
  show ?case
  proof (cases "is_digit c")
    case True
    have "10 * acc + digit_val c < 10 ^ Suc j"
      using digit_val_less [OF True] "2.prems"(2) by simp
    moreover have "dec_body (10 * acc + digit_val c) cs = Some m" using "2.prems"(1) True by simp
    ultimately have "m < 10 ^ (Suc j + length (filter is_digit cs))"
      using "2.IH"(1) [OF True] by blast
    then show ?thesis using True by simp
  next
    case False
    with "2.prems"(1) obtain d ds where u: "c = CHR ''_''" and cs: "cs = d # ds"
      and d: "is_digit d" and r: "dec_body (10 * acc + digit_val d) ds = Some m"
      by (auto split: if_splits list.splits)
    have "10 * acc + digit_val d < 10 ^ Suc j"
      using digit_val_less [OF d] "2.prems"(2) by simp
    then have "m < 10 ^ (Suc j + length (filter is_digit ds))"
      using "2.IH"(2) [OF False u cs d r] by blast
    then show ?thesis using False cs d by simp
  qed
qed

lemma dec_digits_bound:
  assumes "dec_digits s = Some m"
  shows "m < 10 ^ length (filter is_digit s) \<and> 0 < length (filter is_digit s)"
proof -
  from assms obtain c cs where s: "s = c # cs" and c: "is_digit c"
    and b: "dec_body (digit_val c) cs = Some m"
    by (auto simp: dec_digits_def split: list.splits if_splits)
  have "digit_val c < 10 ^ 1" using digit_val_less [OF c] by simp
  from dec_body_bound [OF b this] show ?thesis using s c by simp
qed

lemma nat_to_dec_length: "m < 10 ^ k \<Longrightarrow> 0 < k \<Longrightarrow> length (nat_to_dec m) \<le> k"
proof (induction m arbitrary: k rule: nat_to_dec.induct)
  case (1 n)
  show ?case
  proof (cases "n < 10")
    case True
    then show ?thesis using "1.prems" by (simp add: nat_to_dec_small)
  next
    case False
    from "1.prems" obtain k' where k: "k = Suc k'" by (cases k) auto
    have "0 < k'" using False "1.prems"(1) k by (cases k') auto
    moreover have "n div 10 < 10 ^ k'" using "1.prems"(1) k by (simp add: less_mult_imp_div_less)
    ultimately have "length (nat_to_dec (n div 10)) \<le> k'" using "1.IH" [OF False] by blast
    then show ?thesis using False k by (subst nat_to_dec.simps) simp
  qed
qed

lemma py_int_str_digits_ok:
  assumes "py_int s = Some n"
  shows "str_digits_ok n"
proof -
  from assms obtain c r where s: "int_strip s = c # r"
    and l: "length (filter is_digit (c # r)) \<le> max_str_digits"
    and v: "(if c = CHR ''-'' then map_option (\<lambda>n. - int n) (dec_digits r)
             else if c = CHR ''+'' then map_option int (dec_digits r)
             else map_option int (dec_digits (c # r))) = Some n"
    by (auto simp: py_int_def split: list.splits if_splits)
  have lr: "length (filter is_digit r) \<le> max_str_digits" using l by (simp split: if_splits)
  from v obtain m t where m: "dec_digits t = Some m" and a: "nat \<bar>n\<bar> = m"
    and t: "length (filter is_digit t) \<le> max_str_digits"
    using l lr by (auto split: if_splits)
  from dec_digits_bound [OF m] have "length (nat_to_dec m) \<le> length (filter is_digit t)"
    by (intro nat_to_dec_length) auto
  then show ?thesis using t a by (simp add: str_digits_ok_def)
qed

lemma takeWhile_event_id:
  "0 \<le> aid \<Longrightarrow> takeWhile (\<lambda>c. c \<noteq> CHR '':'') (expected_event_id aid tbl rid) = py_str_int aid"
proof -
  assume "0 \<le> aid"
  then have s: "py_str_int aid = nat_to_dec (nat aid)" by (simp add: py_str_int_def)
  have "\<forall>c\<in>set (nat_to_dec (nat aid)). c \<noteq> CHR '':''" using nat_to_dec_digits by blast
  then show ?thesis
    unfolding expected_event_id_def s
    by (simp add: takeWhile_eq_all_conv[THEN iffD2])
qed

section \<open>Round trip between change events and audit-log records\<close>

lemma valid_ChangeEvent_iff:
  "valid_ChangeEvent e \<longleftrightarrow>
     0 \<le> audit_id e \<and> str_digits_ok (audit_id e) \<and> key_str_ok (row_id e) \<and>
     event_id e = expected_event_id (audit_id e) (table_name e) (row_id e) \<and>
     \<not> (operation e = INSERT \<and> after_data e = None) \<and>
     \<not> (operation e = DELETE \<and> before_data e = None) \<and>
     \<not> (operation e = UPDATE \<and> (before_data e = None \<or> after_data e = None))"
  by (auto simp: valid_ChangeEvent_def new_ChangeEvent_def)

lemma py_int_key:
  "key_str_ok k \<Longrightarrow>
     (case py_int (py_str_key k) of Some n \<Rightarrow> RInt n | None \<Rightarrow> RStr (py_str_key k)) =
       returned_row_id k"
  by (cases k) (simp_all add: returned_row_id_def py_int_py_str_int split: option.splits)

lemma returned_row_id_str_ok: "key_str_ok k \<Longrightarrow> key_str_ok (returned_row_id k)"
  by (cases k) (auto simp: returned_row_id_def py_int_str_digits_ok split: option.splits)

text \<open>
  \<open>int()\<close> skips the whitespace 9 to 13, 32, 133 and 160 around a number, not the separators
  28 to 31: a key that starts with one of those stays a string.
\<close>

lemma py_int_separator_not_skipped: "py_int [CHR 0x1C, CHR ''4'', CHR ''2''] = None"
  by (simp add: py_int_def int_strip_def is_int_space_def max_str_digits_def is_digit_def
      dec_digits_def)

text \<open>
  C4 (as amended). For every valid \<open>ChangeEvent\<close> \<open>e\<close>, \<open>from_change_event\<close> followed by
  \<open>to_change_event\<close> succeeds and returns an event equal to \<open>e\<close> on \<open>audit_id\<close>,
  \<open>table_name\<close>, \<open>operation\<close>, \<open>before_data\<close> and \<open>after_data\<close>. Its \<open>row_id\<close> equals that
  of \<open>e\<close> exactly when \<open>e\<close>'s \<open>row_id\<close> is an integer or a string that \<open>int()\<close> does not
  parse; a string that \<open>int()\<close> parses comes back as that integer.
\<close>
theorem round_trip_row_id:
  assumes "valid_ChangeEvent e"
  shows "\<exists>e'. round_trip e = Inr e' \<and> audit_id e' = audit_id e \<and> table_name e' = table_name e \<and>
           operation e' = operation e \<and> before_data e' = before_data e \<and>
           after_data e' = after_data e \<and> row_id e' = returned_row_id (row_id e) \<and>
           (row_id e' = row_id e) =
             (case row_id e of RInt i \<Rightarrow> True | RStr s \<Rightarrow> py_int s = None)"
proof -
  from assms have v: "0 \<le> audit_id e"
    "event_id e = expected_event_id (audit_id e) (table_name e) (row_id e)"
    "\<not> (operation e = INSERT \<and> after_data e = None)"
    "\<not> (operation e = DELETE \<and> before_data e = None)"
    "\<not> (operation e = UPDATE \<and> (before_data e = None \<or> after_data e = None))"
    and d: "str_digits_ok (audit_id e)" "key_str_ok (row_id e)"
    by (simp_all add: valid_ChangeEvent_iff)
  have p: "py_int (takeWhile (\<lambda>c. c \<noteq> CHR '':'') (event_id e)) = Some (audit_id e)"
    using v(1,2) d(1) by (simp add: takeWhile_event_id py_int_py_str_int)
  define a where "a = \<lparr>al_id = audit_id e, al_table_name = table_name e,
    al_operation = operation e, al_row_id = Some (py_str_key (row_id e)),
    al_before_data = before_data e, al_after_data = after_data e,
    al_created_at = timestamp e, al_consumed_at = None, al_retry_count = 0\<rparr>"
  have f: "from_change_event e = Inr a"
    using v(3,4) d(2) by (simp add: from_change_event_def p new_AuditLog_def a_def)
  define e' where "e' = e\<lparr>event_id := expected_event_id (audit_id e) (table_name e)
      (returned_row_id (row_id e)), row_id := returned_row_id (row_id e)\<rparr>"
  have t: "to_change_event a = Inr e'"
    using v(1,3,4,5) d returned_row_id_str_ok [OF d(2)]
    by (simp add: to_change_event_def a_def py_int_key new_ChangeEvent_def e'_def Let_def)
  have r: "round_trip e = Inr e'" by (simp add: round_trip_def f t)
  have k: "(returned_row_id (row_id e) = row_id e) =
             (case row_id e of RInt i \<Rightarrow> True | RStr s \<Rightarrow> py_int s = None)"
    by (cases "row_id e") (auto simp: returned_row_id_def split: option.splits)
  show ?thesis using r k by (simp add: e'_def)
qed

text \<open>The theorem at an UPDATE event with an integer key.\<close>
theorem round_trip_row_id_witness:
  "valid_ChangeEvent \<lparr>event_id = ''7:users:9'', audit_id = 7, timestamp = 0, operation = UPDATE,
      table_name = ''users'', row_id = RInt 9, before_data = Some [(''id'', PInt 9)],
      after_data = Some [(''id'', PInt 9), (''name'', PStr ''b'')]\<rparr> \<and>
   (\<exists>e'. round_trip \<lparr>event_id = ''7:users:9'', audit_id = 7, timestamp = 0, operation = UPDATE,
      table_name = ''users'', row_id = RInt 9, before_data = Some [(''id'', PInt 9)],
      after_data = Some [(''id'', PInt 9), (''name'', PStr ''b'')]\<rparr> = Inr e' \<and> row_id e' = RInt 9)"
proof -
  let ?e = "\<lparr>event_id = ''7:users:9'', audit_id = 7, timestamp = 0, operation = UPDATE,
      table_name = ''users'', row_id = RInt 9, before_data = Some [(''id'', PInt 9)],
      after_data = Some [(''id'', PInt 9), (''name'', PStr ''b'')]\<rparr>"
  have v: "valid_ChangeEvent ?e"
    by (simp add: valid_ChangeEvent_def new_ChangeEvent_def expected_event_id_def
        py_str_int_def nat_to_dec_small digit_char_def str_digits_ok_def max_str_digits_def)
  from round_trip_row_id [OF v] v show ?thesis
    by (auto simp: returned_row_id_def)
qed

text \<open>
  The claim as first stated (equality on \<open>row_id\<close> for every string key) fails at the
  string key \<open>"42"\<close>: the event that comes back carries the integer 42.
\<close>
theorem round_trip_string_row_id_counterexample:
  "valid_ChangeEvent \<lparr>event_id = ''1:users:42'', audit_id = 1, timestamp = 0, operation = INSERT,
      table_name = ''users'', row_id = RStr ''42'', before_data = None,
      after_data = Some [(''id'', PInt 42)]\<rparr> \<and>
   round_trip \<lparr>event_id = ''1:users:42'', audit_id = 1, timestamp = 0, operation = INSERT,
      table_name = ''users'', row_id = RStr ''42'', before_data = None,
      after_data = Some [(''id'', PInt 42)]\<rparr> =
   Inr \<lparr>event_id = ''1:users:42'', audit_id = 1, timestamp = 0, operation = INSERT,
      table_name = ''users'', row_id = RInt 42, before_data = None,
      after_data = Some [(''id'', PInt 42)]\<rparr> \<and>
   RInt 42 \<noteq> RStr ''42''"
  by (simp add: valid_ChangeEvent_def new_ChangeEvent_def expected_event_id_def
      py_str_int_def nat_to_dec.simps [of 42] nat_to_dec_small digit_char_def round_trip_def from_change_event_def to_change_event_def
      new_AuditLog_def py_int_def int_strip_def is_int_space_def dec_digits_def is_digit_def
      digit_val_def str_digits_ok_def max_str_digits_def)

section \<open>Batches returned by the audit reader\<close>


lemma to_change_event_audit_id: "to_change_event a = Inr ev \<Longrightarrow> audit_id ev = al_id a"
  by (auto simp: to_change_event_def new_ChangeEvent_def Let_def split: if_splits)

lemma row_to_audit_log_id: "row_to_audit_log r = Inr a \<Longrightarrow> al_id a = r_id r"
  by (auto simp: row_to_audit_log_def new_AuditLog_def split: sum.splits if_splits)

lemma convert_rows_ok:
  "convert_rows cur acc rows = (l, Inr evs) \<Longrightarrow>
     \<exists>evs'. evs = acc @ evs' \<and> map audit_id evs' = map r_id rows \<and>
            l = fold max (map r_id rows) cur"
proof (induction rows arbitrary: cur acc)
  case Nil
  then show ?case by simp
next
  case (Cons r rs)
  from Cons.prems obtain a ev where a: "row_to_audit_log r = Inr a"
    and ev: "to_change_event a = Inr ev"
    and rest: "convert_rows (if cur < audit_id ev then audit_id ev else cur) (acc @ [ev]) rs
                 = (l, Inr evs)"
    by (auto split: sum.splits)
  have id: "audit_id ev = r_id r"
    using a ev by (simp add: to_change_event_audit_id row_to_audit_log_id)
  from Cons.IH [OF rest] obtain evs' where
    "evs = (acc @ [ev]) @ evs'" "map audit_id evs' = map r_id rs"
    "l = fold max (map r_id rs) (if cur < audit_id ev then audit_id ev else cur)"
    by blast
  moreover have "(if cur < audit_id ev then audit_id ev else cur) = max (r_id r) cur"
    using id by (simp add: max_def)
  ultimately show ?case using id by simp
qed

lemma fold_max_above: "\<forall>x\<in>set xs. (c::int) < x \<Longrightarrow> xs \<noteq> [] \<Longrightarrow> fold max xs c = Max (set xs)"
proof (induction xs arbitrary: c)
  case Nil
  then show ?case by simp
next
  case (Cons x xs)
  show ?case
  proof (cases "xs = []")
    case True
    with Cons.prems show ?thesis by (simp add: max_def)
  next
    case False
    have "fold max xs (max x c) = fold max xs x" using Cons.prems by (simp add: max_def)
    also have "\<dots> = Max (set (x # xs))" by (simp only: Max.set_eq_fold)
    finally show ?thesis by simp
  qed
qed

lemma fetch_unconsumed_props:
  assumes "distinct (map r_id (audit_rows db))"
  shows "\<forall>r\<in>set (fetch_unconsumed db c n). r \<in> set (audit_rows db) \<and> c < r_id r \<and> r_consumed_at r = None"
    and "0 \<le> n \<longrightarrow> int (length (fetch_unconsumed db c n)) \<le> n"
    and "sorted_wrt (<) (map r_id (fetch_unconsumed db c n))"
proof -
  let ?f = "filter (\<lambda>r. c < r_id r \<and> r_consumed_at r = None) (audit_rows db)"
  let ?s = "sort_key r_id ?f"
  show "\<forall>r\<in>set (fetch_unconsumed db c n). r \<in> set (audit_rows db) \<and> c < r_id r \<and> r_consumed_at r = None"
    by (auto simp: fetch_unconsumed_def sql_limit_def dest!: in_set_takeD)
  show "0 \<le> n \<longrightarrow> int (length (fetch_unconsumed db c n)) \<le> n"
    by (auto simp add: fetch_unconsumed_def sql_limit_def min_def)
  have d: "distinct (map r_id ?f)" using assms(1) by (simp add: distinct_map_filter)
  have "distinct (map r_id ?s)"
    using d by (simp add: distinct_map)
  moreover have "sorted (map r_id ?s)" by simp
  ultimately have s: "sorted_wrt (<) (map r_id ?s)" by (simp add: strict_sorted_iff)
  then have "sorted_wrt (<) (take (nat n) (map r_id ?s))"
    by (rule sorted_wrt_take)
  then show "sorted_wrt (<) (map r_id (fetch_unconsumed db c n))"
    using s by (simp add: fetch_unconsumed_def sql_limit_def take_map)
qed

text \<open>
  C7 (as amended). Whenever \<open>fetch_batch\<close> returns a batch (the ids of the audit table being
  distinct, as its primary key makes them), every event of the batch comes from a row with
  \<open>id\<close> above the reader's cursor and \<open>consumed_at\<close> NULL, the events are in strictly
  ascending \<open>audit_id\<close> order, and the cursor afterwards is the largest \<open>audit_id\<close> of the
  batch, or unchanged when the batch is empty. The batch holds at most \<open>batch_size\<close>
  events when \<open>batch_size\<close> is not negative; a negative \<open>batch_size\<close> reaches SQLite as a
  negative \<open>LIMIT\<close>, which is no limit.
\<close>
theorem fetch_batch_invariants:
  assumes "distinct (map r_id (audit_rows db))"
    and "fetch_batch db rd = (rd', Inr events)"
  shows "(\<forall>e\<in>set events. \<exists>r\<in>set (audit_rows db). r_id r = audit_id e \<and>
            rd_last_audit_id rd < r_id r \<and> r_consumed_at r = None) \<and>
         (0 \<le> rd_batch_size rd \<longrightarrow> int (length events) \<le> rd_batch_size rd) \<and>
         sorted_wrt (<) (map audit_id events) \<and>
         rd_last_audit_id rd' =
           (if events = [] then rd_last_audit_id rd else Max (set (map audit_id events)))"
proof (cases "rd_running rd \<and> fetch_unconsumed db (rd_last_audit_id rd) (rd_batch_size rd) \<noteq> []")
  case False
  with assms(2) have "events = []" "rd' = rd"
    by (auto simp: fetch_batch_def Let_def split: if_splits)
  then show ?thesis by simp
next
  case True
  let ?rows = "fetch_unconsumed db (rd_last_audit_id rd) (rd_batch_size rd)"
  from True assms(2) obtain l where
    c: "convert_rows (rd_last_audit_id rd) [] ?rows = (l, Inr events)"
    and l: "rd' = rd\<lparr>rd_last_audit_id := l\<rparr>"
    by (auto simp: fetch_batch_def Let_def split: prod.splits)
  from convert_rows_ok [OF c] have ids: "map audit_id events = map r_id ?rows"
    and lmax: "l = fold max (map r_id ?rows) (rd_last_audit_id rd)"
    by auto
  note p = fetch_unconsumed_props [OF assms(1), where c = "rd_last_audit_id rd" and n = "rd_batch_size rd"]
  have ne: "events \<noteq> []" using ids True by auto
  have "\<forall>e\<in>set events. \<exists>r\<in>set ?rows. r_id r = audit_id e"
  proof
    fix e assume "e \<in> set events"
    then have "audit_id e \<in> set (map r_id ?rows)" using ids by (metis image_eqI set_map)
    then show "\<exists>r\<in>set ?rows. r_id r = audit_id e" by auto
  qed
  then have 1: "\<forall>e\<in>set events. \<exists>r\<in>set (audit_rows db). r_id r = audit_id e \<and>
            rd_last_audit_id rd < r_id r \<and> r_consumed_at r = None"
    using p(1) by blast
  have "length events = length (fetch_unconsumed db (rd_last_audit_id rd) (rd_batch_size rd))"
    using ids by (metis length_map)
  then have 2: "0 \<le> rd_batch_size rd \<longrightarrow> int (length events) \<le> rd_batch_size rd"
    using p(2) by simp
  have 3: "sorted_wrt (<) (map audit_id events)" using p(3) ids by simp
  have "\<forall>x\<in>set (map r_id ?rows). rd_last_audit_id rd < x" using p(1) by auto
  then have "l = Max (set (map r_id ?rows))"
    using lmax True by (intro trans [OF lmax] fold_max_above) auto
  then have 4: "rd_last_audit_id rd' = Max (set (map audit_id events))"
    using l ids by simp
  show ?thesis using 1 2 3 4 ne by simp
qed


lemmas py_int_eval = py_int_def int_strip_def is_int_space_def max_str_digits_def
  str_digits_ok_def dec_digits_def is_digit_def digit_val_def py_str_int_def nat_to_dec_small
  digit_char_def

lemmas reader_eval = fetch_batch_def fetch_unconsumed_def sql_limit_def row_to_audit_log_def
  json_loads_or_none_def validate_operation_def new_AuditLog_def to_change_event_def
  new_ChangeEvent_def expected_event_id_def users_row_def row_image_def Let_def

text \<open>
  The theorem at a table of four rows stored out of order, one of them consumed, read with
  \<open>batch_size = 2\<close> from cursor 0: the batch is the events 1 and 3.
\<close>
theorem fetch_batch_invariants_witness:
  "distinct (map r_id [users_row 3 ''INSERT'' None (row_image 3) None,
       users_row 1 ''INSERT'' None (row_image 1) None,
       users_row 2 ''DELETE'' (row_image 2) None (Some 5),
       users_row 4 ''INSERT'' None (row_image 4) None]) \<and>
   (0::int) \<le> 2 \<and>
   (case fetch_batch
      \<lparr>audit_rows = [users_row 3 ''INSERT'' None (row_image 3) None,
         users_row 1 ''INSERT'' None (row_image 1) None,
         users_row 2 ''DELETE'' (row_image 2) None (Some 5),
         users_row 4 ''INSERT'' None (row_image 4) None], db_fails = False\<rparr>
      \<lparr>rd_batch_size = 2, rd_running = True, rd_last_audit_id = 0\<rparr> of
      (rd', res) \<Rightarrow> rd_last_audit_id rd' = 3 \<and>
        (case res of Inl e \<Rightarrow> False
         | Inr events \<Rightarrow> map audit_id events = [1, 3] \<and> int (length events) \<le> 2))"
proof -
  let ?db = "\<lparr>audit_rows = [users_row 3 ''INSERT'' None (row_image 3) None,
         users_row 1 ''INSERT'' None (row_image 1) None,
         users_row 2 ''DELETE'' (row_image 2) None (Some 5),
         users_row 4 ''INSERT'' None (row_image 4) None], db_fails = False\<rparr>"
  let ?rd = "\<lparr>rd_batch_size = 2, rd_running = True, rd_last_audit_id = 0\<rparr>"
  obtain rd' res where f: "fetch_batch ?db ?rd = (rd', res)" by (cases "fetch_batch ?db ?rd")
  have ok: "\<exists>events. res = Inr events"
    using f by (auto simp add: reader_eval py_int_eval)
  then obtain events where r: "res = Inr events" by blast
  have h1: "distinct (map r_id (audit_rows ?db))" by (simp add: users_row_def)
  have h2: "0 \<le> rd_batch_size ?rd" by simp
  note t = fetch_batch_invariants [OF h1 f [unfolded r]]
  have ids: "map audit_id events = [1, 3]"
    using f r by (auto simp add: reader_eval py_int_eval)
  have ne: "events \<noteq> []" using ids by auto
  from t h2 have len: "int (length events) \<le> 2" by simp
  from t have "rd_last_audit_id rd' = Max (set (map audit_id events))" using ne by simp
  then have "rd_last_audit_id rd' = 3" by (simp add: ids)
  then show ?thesis using h1 f r ids len by simp
qed

text \<open>
  The claim as first stated (at most \<open>batch_size\<close> events in every returned batch) fails
  for a reader built with \<open>batch_size = -1\<close>, which \<open>AuditReader\<close> accepts: the query runs
  with \<open>LIMIT -1\<close> and both unconsumed rows come back.
\<close>
theorem fetch_batch_negative_batch_size_counterexample:
  "snd (fetch_batch
     \<lparr>audit_rows = [users_row 1 ''INSERT'' None (row_image 1) None,
        users_row 2 ''INSERT'' None (row_image 2) None], db_fails = False\<rparr>
     \<lparr>rd_batch_size = - 1, rd_running = True, rd_last_audit_id = 0\<rparr>) =
   Inr [\<lparr>event_id = ''1:users:1'', audit_id = 1, timestamp = 0, operation = INSERT,
          table_name = ''users'', row_id = RInt 1, before_data = None,
          after_data = Some [(''id'', PInt 1)]\<rparr>,
        \<lparr>event_id = ''2:users:2'', audit_id = 2, timestamp = 0, operation = INSERT,
          table_name = ''users'', row_id = RInt 2, before_data = None,
          after_data = Some [(''id'', PInt 2)]\<rparr>] \<and>
   \<not> int (length
     [\<lparr>event_id = ''1:users:1'', audit_id = 1, timestamp = 0, operation = INSERT,
          table_name = ''users'', row_id = RInt 1, before_data = None,
          after_data = Some [(''id'', PInt 1)]\<rparr>,
      \<lparr>event_id = ''2:users:2'', audit_id = 2, timestamp = 0, operation = INSERT,
          table_name = ''users'', row_id = RInt 2, before_data = None,
          after_data = Some [(''id'', PInt 2)]\<rparr>]) \<le> - 1"
  by (simp add: reader_eval py_int_eval)

text \<open>
  C5. A row whose payload holds malformed JSON is meant to become an event with that payload
  NULL, the rest of the batch being still yielded. Here the second of three INSERT rows
  has a malformed \<open>after_data\<close>: \<open>_row_to_audit_log\<close> turns the payload into \<open>None\<close>, the
  \<open>AuditLog\<close> validator then rejects an INSERT without \<open>after_data\<close>, and \<open>fetch_batch\<close>
  raises. No event is returned, and the cursor has already moved past row 1.
\<close>
theorem fetch_batch_malformed_required_payload:
  "fetch_batch
     \<lparr>audit_rows = [users_row 1 ''INSERT'' None (row_image 1) None,
        users_row 2 ''INSERT'' None (Some (Malformed ''{bad'')) None,
        users_row 3 ''INSERT'' None (row_image 3) None], db_fails = False\<rparr>
     \<lparr>rd_batch_size = 100, rd_running = True, rd_last_audit_id = 0\<rparr> =
   (\<lparr>rd_batch_size = 100, rd_running = True, rd_last_audit_id = 1\<rparr>,
    Inl (ValidationError ''INSERT after_data''))"
  by (simp add: reader_eval py_int_eval)

section \<open>The consume loop of the engine\<close>


lemma convert_rows_mono: "convert_rows cur acc rows = (l, res) \<Longrightarrow> cur \<le> l"
proof (induction rows arbitrary: cur acc)
  case Nil
  then show ?case by simp
next
  case (Cons r rs)
  show ?case
  proof (cases "row_to_audit_log r")
    case (Inl e)
    with Cons.prems show ?thesis by simp
  next
    case (Inr a)
    show ?thesis
    proof (cases "to_change_event a")
      case (Inl e)
      with Inr Cons.prems show ?thesis by simp
    next
      case ev: (Inr ev)
      with Inr Cons.prems have
        "convert_rows (if cur < audit_id ev then audit_id ev else cur) (acc @ [ev]) rs = (l, res)"
        by simp
      from Cons.IH [OF this] show ?thesis by (simp split: if_splits)
    qed
  qed
qed

lemma fetch_batch_cursor_mono:
  "fetch_batch db rd = (rd', res) \<Longrightarrow> rd_last_audit_id rd \<le> rd_last_audit_id rd'"
  by (auto simp: fetch_batch_def Let_def split: if_splits prod.splits dest: convert_rows_mono)

lemma fold_max_ge: "(c::int) \<le> fold max xs c \<and> (\<forall>x\<in>set xs. x \<le> fold max xs c)"
proof (induction xs arbitrary: c)
  case Nil
  then show ?case by simp
next
  case (Cons x xs)
  from Cons [of "max x c"] show ?case by auto
qed

lemma fetch_batch_ids_bounds:
  assumes "fetch_batch db rd = (rd', Inr evs)"
  shows "\<forall>e\<in>set evs. rd_last_audit_id rd < audit_id e \<and> audit_id e \<le> rd_last_audit_id rd'"
proof (cases "rd_running rd \<and> fetch_unconsumed db (rd_last_audit_id rd) (rd_batch_size rd) \<noteq> []")
  case False
  with assms have "evs = []" by (auto simp: fetch_batch_def Let_def split: if_splits)
  then show ?thesis by simp
next
  case True
  let ?rows = "fetch_unconsumed db (rd_last_audit_id rd) (rd_batch_size rd)"
  from True assms obtain l where
    c: "convert_rows (rd_last_audit_id rd) [] ?rows = (l, Inr evs)"
    and l: "rd' = rd\<lparr>rd_last_audit_id := l\<rparr>"
    by (auto simp: fetch_batch_def Let_def split: prod.splits)
  from convert_rows_ok [OF c] have ids: "map audit_id evs = map r_id ?rows"
    and lmax: "l = fold max (map r_id ?rows) (rd_last_audit_id rd)"
    by auto
  have above: "\<forall>r\<in>set ?rows. rd_last_audit_id rd < r_id r"
    by (auto simp: fetch_unconsumed_def sql_limit_def split: if_splits dest!: in_set_takeD)
  show ?thesis
  proof
    fix e assume "e \<in> set evs"
    then have "audit_id e \<in> set (map r_id ?rows)" using ids by (metis image_eqI set_map)
    then show "rd_last_audit_id rd < audit_id e \<and> audit_id e \<le> rd_last_audit_id rd'"
      using above fold_max_ge [of "rd_last_audit_id rd" "map r_id ?rows"] lmax l by auto
  qed
qed


lemma gather_frame:
  "positions (gather w c eng) = positions eng" "audit_reader (gather w c eng) = audit_reader eng"
  "consumed_ids (gather w c eng) = consumed_ids eng"
  "source_db_path (gather w c eng) = source_db_path eng"
  "target_names (gather w c eng) = target_names eng" "status (gather w c eng) = status eng"
  "source (gather w c eng) = source eng" "mappings (gather w c eng) = mappings eng"
  by (simp_all add: gather_def)

lemma fold_gather_frame:
  "positions (fold (\<lambda>e. gather w (f e)) xs eng) = positions eng \<and>
   audit_reader (fold (\<lambda>e. gather w (f e)) xs eng) = audit_reader eng \<and>
   consumed_ids (fold (\<lambda>e. gather w (f e)) xs eng) = consumed_ids eng \<and>
   source_db_path (fold (\<lambda>e. gather w (f e)) xs eng) = source_db_path eng \<and>
   target_names (fold (\<lambda>e. gather w (f e)) xs eng) = target_names eng \<and>
   status (fold (\<lambda>e. gather w (f e)) xs eng) = status eng \<and>
   source (fold (\<lambda>e. gather w (f e)) xs eng) = source eng \<and>
   mappings (fold (\<lambda>e. gather w (f e)) xs eng) = mappings eng"
  by (induction xs arbitrary: eng) (simp_all add: gather_frame)

lemma process_table_events_frame:
  "positions (process_table_events w n evs eng) = positions eng \<and>
   audit_reader (process_table_events w n evs eng) = audit_reader eng \<and>
   consumed_ids (process_table_events w n evs eng) = consumed_ids eng \<and>
   source_db_path (process_table_events w n evs eng) = source_db_path eng \<and>
   target_names (process_table_events w n evs eng) = target_names eng \<and>
   source (process_table_events w n evs eng) = source eng \<and>
   mappings (process_table_events w n evs eng) = mappings eng \<and>
   total_events (status (process_table_events w n evs eng)) = total_events (status eng)"
  by (simp add: process_table_events_def Let_def fold_gather_frame gather_frame update_stats_def
      split: option.splits)

lemma process_groups_frame:
  fixes groups :: "(string \<times> ChangeEvent list) list"
  defines "F \<equiv> \<lambda>w. \<lambda>(name, tevs) s.
     (process_table_events w name tevs s)\<lparr>consumed_ids := consumed_ids s @ map audit_id tevs\<rparr>"
  shows "positions (fold (F w) groups eng) = positions eng \<and>
   audit_reader (fold (F w) groups eng) = audit_reader eng \<and>
   source_db_path (fold (F w) groups eng) = source_db_path eng \<and>
   target_names (fold (F w) groups eng) = target_names eng \<and>
   source (fold (F w) groups eng) = source eng \<and>
   total_events (status (fold (F w) groups eng)) = total_events (status eng) \<and>
   consumed_ids (fold (F w) groups eng) =
     consumed_ids eng @ concat (map (\<lambda>g. map audit_id (snd g)) groups)"
proof (induction groups arbitrary: eng)
  case Nil
  then show ?case by simp
next
  case (Cons g gs)
  obtain name tevs where g: "g = (name, tevs)" by (cases g)
  show ?case
    using Cons [of "F w g eng"] process_table_events_frame [of w name tevs eng]
    by (simp add: g F_def)
qed

lemma setdefault_append_values:
  "(\<Union>g\<in>set (setdefault_append k v d). set (snd g)) = insert v (\<Union>g\<in>set d. set (snd g))"
  by (induction k v d rule: setdefault_append.induct) auto

lemma by_table_values_gen:
  "(\<Union>g\<in>set (fold (\<lambda>e. setdefault_append (table_name e) e) evs d). set (snd g)) =
     (\<Union>g\<in>set d. set (snd g)) \<union> set evs"
  by (induction evs arbitrary: d) (simp_all add: setdefault_append_values)

lemma by_table_ids:
  "set (concat (map (\<lambda>g. map audit_id (snd g)) (by_table evs))) = audit_id ` set evs"
proof -
  have "set (concat (map (\<lambda>g. map audit_id (snd g)) (by_table evs))) =
          audit_id ` (\<Union>g\<in>set (by_table evs). set (snd g))"
    by auto
  also have "(\<Union>g\<in>set (by_table evs). set (snd g)) = set evs"
    using by_table_values_gen [of evs "[]"] by (simp add: by_table_def)
  finally show ?thesis .
qed

lemma process_events_frame:
  "positions (process_events w evs eng) = positions eng \<and>
   audit_reader (process_events w evs eng) = audit_reader eng \<and>
   source_db_path (process_events w evs eng) = source_db_path eng \<and>
   target_names (process_events w evs eng) = target_names eng \<and>
   source (process_events w evs eng) = source eng \<and>
   set (consumed_ids (process_events w evs eng)) = set (consumed_ids eng) \<union> audit_id ` set evs"
  using process_groups_frame [of w "by_table evs" eng] by_table_ids [of evs]
  by (simp add: process_events_def Let_def)

lemma save_all_error:
  "new_SyncPosition m tot = Inl e \<Longrightarrow> fst (save_all src m tot ts ps) = ps"
  by (cases ts) simp_all

lemma save_all_ok:
  "new_SyncPosition m tot = Inr p \<Longrightarrow>
     save_all src m tot ts ps =
       ((\<lambda>k. if fst k = src \<and> snd k \<in> set ts then Some p else ps k), None)"
proof (induction ts arbitrary: ps)
  case Nil
  then show ?case by simp
next
  case (Cons t ts)
  have "save_all src m tot (t # ts) ps = save_all src m tot ts (save_position src t p ps)"
    using Cons.prems by simp
  also have "\<dots> = ((\<lambda>k. if fst k = src \<and> snd k \<in> set ts then Some p
                          else save_position src t p ps k), None)"
    by (rule Cons.IH [OF Cons.prems])
  also have "(\<lambda>k. if fst k = src \<and> snd k \<in> set ts then Some p else save_position src t p ps k) =
             (\<lambda>k. if fst k = src \<and> snd k \<in> set (t # ts) then Some p else ps k)"
    by (auto simp: save_position_def fun_eq_iff)
  finally show ?case .
qed

lemma new_SyncPosition_id: "new_SyncPosition m tot = Inr p \<Longrightarrow> sp_last_audit_id p = m"
  by (auto simp: new_SyncPosition_def split: if_splits)

lemma save_checkpoints_stored:
  assumes "save_checkpoints (x # xs) eng = (eng', err)"
  shows "source_db_path eng' = source_db_path eng \<and> audit_reader eng' = audit_reader eng \<and>
         target_names eng' = target_names eng \<and> consumed_ids eng' = consumed_ids eng \<and>
         (stored_id eng' t = stored_id eng t \<or> stored_id eng' t = Max (set (x # xs)))"
proof (cases "new_SyncPosition (fold max xs x) (total_events (status eng))")
  case (Inl e)
  from assms save_all_error [OF Inl, of "source_db_path eng" "target_names eng" "positions eng"]
  show ?thesis
    by (auto simp: save_checkpoints_def stored_id_def split: prod.splits)
next
  case (Inr p)
  have m: "sp_last_audit_id p = Max (set (x # xs))"
    using new_SyncPosition_id [OF Inr] by (simp only: Max.set_eq_fold)
  from assms save_all_ok [OF Inr, of "source_db_path eng" "target_names eng" "positions eng"]
  show ?thesis using m
    by (auto simp: save_checkpoints_def stored_id_def load_position_def split: prod.splits)
qed

lemma loop_iteration_step:
  assumes "cursor_inv eng t"
  shows "stored_id eng t \<le> stored_id (loop_iteration w eng) t \<and>
         cursor_inv (loop_iteration w eng) t"
proof -
  obtain rd res where f: "fetch_batch (source eng) (audit_reader eng) = (rd, res)"
    by (cases "fetch_batch (source eng) (audit_reader eng)")
  have mono: "rd_last_audit_id (audit_reader eng) \<le> rd_last_audit_id rd"
    using fetch_batch_cursor_mono [OF f] .
  from assms have st: "stored_id eng t \<le> rd_last_audit_id (audit_reader eng)"
    and ci: "\<forall>i\<in>set (consumed_ids eng). i \<le> rd_last_audit_id (audit_reader eng)"
    by (simp_all add: cursor_inv_def)
  show ?thesis
  proof (cases res)
    case (Inl e)
    then show ?thesis using f mono st ci
      by (auto simp: loop_iteration_def cursor_inv_def stored_id_def)
  next
    case (Inr evs)
    let ?eng1 = "eng\<lparr>audit_reader := rd\<rparr>"
    show ?thesis
    proof (cases "evs = []")
      case True
      then show ?thesis using f Inr mono st ci
        by (auto simp: loop_iteration_def cursor_inv_def stored_id_def)
    next
      case False
      let ?eng2 = "process_events w evs ?eng1"
      note fr = process_events_frame [of w evs ?eng1]
      note b = fetch_batch_ids_bounds [OF f [unfolded Inr]]
      from False obtain e0 where e0: "e0 \<in> set evs" by (cases evs) auto
      have ids: "set (consumed_ids ?eng2) = set (consumed_ids eng) \<union> audit_id ` set evs"
        using fr by simp
      have ne: "consumed_ids ?eng2 \<noteq> []" using ids e0 by auto
      then obtain x xs where xs: "consumed_ids ?eng2 = x # xs" by (cases "consumed_ids ?eng2") auto
      have le: "\<forall>i\<in>set (x # xs). i \<le> rd_last_audit_id rd"
        using ids ci mono b by (auto simp: xs [symmetric])
      have "finite (set (x # xs))" by simp
      then have mx_le: "Max (set (x # xs)) \<le> rd_last_audit_id rd" using le by (subst Max_le_iff) auto
      have "audit_id e0 \<in> set (x # xs)" using ids e0 by (auto simp: xs [symmetric])
      then have "audit_id e0 \<le> Max (set (x # xs))" by (intro Max_ge) auto
      then have mx_ge: "stored_id eng t \<le> Max (set (x # xs))" using b e0 st by force
      have st2: "stored_id ?eng2 t = stored_id eng t" using fr by (simp add: stored_id_def)
      obtain eng3 err where sv: "save_checkpoints (x # xs) ?eng2 = (eng3, err)"
        by (cases "save_checkpoints (x # xs) ?eng2")
      note s3 = save_checkpoints_stored [OF sv, of t]
      have rd3: "audit_reader eng3 = rd" using s3 fr by simp
      have c3: "consumed_ids eng3 = x # xs" using s3 xs by simp
      have st3: "stored_id eng t \<le> stored_id eng3 t \<and> stored_id eng3 t \<le> rd_last_audit_id rd"
        using s3 st2 mx_le mx_ge st mono by auto
      have li: "loop_iteration w eng =
          (case err of Some e \<Rightarrow> eng3\<lparr>status := record_error (error_message e) (status eng3)\<rparr>
           | None \<Rightarrow> eng3\<lparr>consumed_ids := []\<rparr>)"
        using f Inr False ne sv by (simp add: loop_iteration_def Let_def xs)
      show ?thesis
        using st3 rd3 c3 le
        by (cases err) (auto simp: li cursor_inv_def stored_id_def)
    qed
  qed
qed

lemma run_iterations_append:
  "run_iterations (ws1 @ ws2) eng = run_iterations ws2 (run_iterations ws1 eng)"
  by (induction ws1 arbitrary: eng) simp_all

lemma cursor_inv_source: "cursor_inv (eng\<lparr>source := db\<rparr>) t = cursor_inv eng t"
  by (simp add: cursor_inv_def stored_id_def)

lemma run_iterations_mono:
  "cursor_inv eng t \<Longrightarrow>
     stored_id eng t \<le> stored_id (run_iterations ws eng) t \<and> cursor_inv (run_iterations ws eng) t"
proof (induction ws arbitrary: eng)
  case Nil
  then show ?case by simp
next
  case (Cons w ws)
  let ?e = "eng\<lparr>source := w_source w\<rparr>"
  have i: "cursor_inv ?e t" using Cons.prems by (simp add: cursor_inv_source)
  have s: "stored_id ?e t = stored_id eng t" by (simp add: stored_id_def)
  from loop_iteration_step [OF i, of "w_writers w"] Cons.IH [of "loop_iteration (w_writers w) ?e"]
  show ?case using s by auto
qed

text \<open>
  C3 (as amended). From any point of a run at which the \<open>last_audit_id\<close> stored for a
  target does not exceed the reader's cursor (nor do the ids waiting in \<open>consumed_ids\<close>),
  the stored value never decreases, whatever the source holds and the writers do at each
  iteration: every \<open>save_position\<close> writes the largest audit id of the batch, which lies
  above the cursor the batch was read from. At the start of streaming this covers each
  target whose loaded position equals the start id, the minimum over all targets
  (\<open>start_incremental_cursor_inv\<close>, \<open>start_id_le\<close>).
\<close>
theorem checkpoint_monotone_from_cursor:
  assumes "stored_id eng t \<le> rd_last_audit_id (audit_reader eng)"
    and "\<forall>i\<in>set (consumed_ids eng). i \<le> rd_last_audit_id (audit_reader eng)"
  shows "stored_id (run_iterations ws1 eng) t \<le> stored_id (run_iterations (ws1 @ ws2) eng) t"
proof -
  have "cursor_inv eng t" using assms by (simp add: cursor_inv_def)
  then have "cursor_inv (run_iterations ws1 eng) t" using run_iterations_mono by blast
  then show ?thesis using run_iterations_mono [of "run_iterations ws1 eng" t ws2]
    by (simp add: run_iterations_append)
qed


lemmas engine_eval = loop_iteration_def process_events_def by_table_def
  process_table_events_def get_table_mapping_def get_target_table_def gather_def
  update_stats_def stat_of_def put_stat_def count_op_def save_checkpoints_def
  new_SyncPosition_def save_position_def load_position_def stored_id_def
  start_incremental_def start_id_def reader_start_def example_engine_def B_fails_def
  all_succeed_def three_inserts_def A_at_10_def record_error_def

text \<open>
  C1. A target whose write raises is meant to keep its cursor, with an error recorded.
  Here \<open>B\<close> raises on the batch of the events 1 to 3 and \<open>A\<close> succeeds:
  \<open>gather(..., return_exceptions=True)\<close> hands the exception back as a result that nobody
  reads, \<open>_save_checkpoints\<close> then writes 3 for both targets, and \<open>last_error\<close> stays unset.
\<close>
theorem failed_target_cursor_advances:
  "writes (loop_iteration B_fails (start_incremental (example_engine Map.empty three_inserts))) =
     [(''A'', BatchUpsert ''users_backup''
               [[(''id'', PInt 1)], [(''id'', PInt 2)], [(''id'', PInt 3)]], None),
      (''B'', BatchUpsert ''users_backup''
               [[(''id'', PInt 1)], [(''id'', PInt 2)], [(''id'', PInt 3)]],
              Some (DriverError ''connection refused''))] \<and>
   stored_id (example_engine Map.empty three_inserts) ''B'' = 0 \<and>
   stored_id (loop_iteration B_fails (start_incremental (example_engine Map.empty three_inserts)))
     ''B'' = 3 \<and>
   stored_id (loop_iteration B_fails (start_incremental (example_engine Map.empty three_inserts)))
     ''A'' = 3 \<and>
   last_error (status (loop_iteration B_fails
     (start_incremental (example_engine Map.empty three_inserts)))) = None"
  by (simp add: engine_eval reader_eval py_int_eval)


lemma save_checkpoints_source: "save_checkpoints ids e = (e', err) \<Longrightarrow> source e' = source e"
  by (cases ids) (auto simp: save_checkpoints_def split: prod.splits)

lemma loop_iteration_source: "source (loop_iteration w eng) = source eng"
proof -
  have p: "source (process_events w evs e) = source e" for evs e
    using process_events_frame [of w evs e] by simp
  show ?thesis
    by (auto simp: loop_iteration_def Let_def p split: prod.splits sum.splits option.splits
        dest!: save_checkpoints_source)
qed

text \<open>
  C2. After a batch has completed for all targets the engine is meant to save the cursors
  and then mark the batch's audit ids consumed. Here both targets succeed on the events 1
  to 3: the cursors are saved at 3 and \<open>consumed_ids\<close> is reset, but the three audit rows
  still have \<open>consumed_at\<close> NULL. The consume loop never calls \<open>mark_consumed\<close>; by
  \<open>loop_iteration_source\<close> it leaves the source untouched on every input.
\<close>
theorem consume_loop_leaves_rows_unconsumed:
  "stored_id (loop_iteration all_succeed
      (start_incremental (example_engine Map.empty three_inserts))) ''A'' = 3 \<and>
   stored_id (loop_iteration all_succeed
      (start_incremental (example_engine Map.empty three_inserts))) ''B'' = 3 \<and>
   consumed_ids (loop_iteration all_succeed
      (start_incremental (example_engine Map.empty three_inserts))) = [] \<and>
   map r_consumed_at (audit_rows (source (loop_iteration all_succeed
      (start_incremental (example_engine Map.empty three_inserts))))) = [None, None, None]"
  by (simp add: engine_eval reader_eval py_int_eval)

text \<open>
  The claim as first stated (every save writes at least the value stored before) fails for
  a target whose loaded position lies above the start id: with \<open>A\<close> at 10, \<open>B\<close> without a
  row and the audit rows 1 to 3 unconsumed, streaming starts at 0 and the first save
  writes 3 for \<open>A\<close>.
\<close>
theorem checkpoint_lowered_counterexample:
  "stored_id (example_engine A_at_10 three_inserts) ''A'' = 10 \<and>
   start_id (example_engine A_at_10 three_inserts) = 0 \<and>
   stored_id (loop_iteration all_succeed
      (start_incremental (example_engine A_at_10 three_inserts))) ''A'' = 3"
  by (simp add: engine_eval reader_eval py_int_eval)

text \<open>
  The theorem at a run of one iteration over three unconsumed rows, from an empty
  checkpoint store: the stored id of target \<open>A\<close> goes from 0 to 3.
\<close>
theorem checkpoint_monotone_from_cursor_witness:
  "stored_id (start_incremental (example_engine Map.empty three_inserts)) ''A'' = 0 \<and>
   rd_last_audit_id (audit_reader (start_incremental (example_engine Map.empty three_inserts))) = 0 \<and>
   consumed_ids (start_incremental (example_engine Map.empty three_inserts)) = [] \<and>
   stored_id (run_iterations []
      (start_incremental (example_engine Map.empty three_inserts))) ''A'' \<le>
   stored_id (run_iterations
      [\<lparr>w_source = \<lparr>audit_rows = three_inserts, db_fails = False\<rparr>, w_writers = B_fails\<rparr>]
      (start_incremental (example_engine Map.empty three_inserts))) ''A'' \<and>
   stored_id (run_iterations
      [\<lparr>w_source = \<lparr>audit_rows = three_inserts, db_fails = False\<rparr>, w_writers = B_fails\<rparr>]
      (start_incremental (example_engine Map.empty three_inserts))) ''A'' = 3"
proof -
  let ?eng = "start_incremental (example_engine Map.empty three_inserts)"
  let ?w = "\<lparr>w_source = \<lparr>audit_rows = three_inserts, db_fails = False\<rparr>, w_writers = B_fails\<rparr>"
  have h0: "stored_id ?eng ''A'' = 0" "rd_last_audit_id (audit_reader ?eng) = 0"
    "consumed_ids ?eng = []"
    by (simp_all add: engine_eval)
  have h1: "stored_id ?eng ''A'' \<le> rd_last_audit_id (audit_reader ?eng)" using h0 by simp
  have h2: "\<forall>i\<in>set (consumed_ids ?eng). i \<le> rd_last_audit_id (audit_reader ?eng)"
    using h0 by simp
  have v: "stored_id (run_iterations [?w] ?eng) ''A'' = 3"
    by (simp add: engine_eval reader_eval py_int_eval)
  from checkpoint_monotone_from_cursor [OF h1 h2, of "[]" "[?w]"] h0 v show ?thesis by simp
qed

lemma fold_min_le: "fold min xs (c::int) \<le> c \<and> (\<forall>x\<in>set xs. fold min xs c \<le> x)"
proof (induction xs arbitrary: c)
  case Nil
  then show ?case by simp
next
  case (Cons x xs)
  from Cons [of "min x c"] show ?case by (auto simp: min_def split: if_splits)
qed

lemma start_id_le: "t \<in> set (target_names eng) \<Longrightarrow> start_id eng \<le> stored_id eng t"
proof -
  assume t: "t \<in> set (target_names eng)"
  let ?xs = "map (\<lambda>t. sp_last_audit_id (load_position (source_db_path eng) t (positions eng)))
               (target_names eng)"
  have m: "stored_id eng t \<in> set ?xs" using t by (auto simp: stored_id_def)
  then obtain y ys where ys: "?xs = y # ys" by (cases ?xs) auto
  have "start_id eng = fold min ys y" by (simp add: start_id_def ys)
  then show ?thesis using fold_min_le [of ys y] m ys by auto
qed

lemma start_incremental_cursor_inv:
  "stored_id eng t \<le> start_id eng \<Longrightarrow> cursor_inv (start_incremental eng) t"
  by (simp add: cursor_inv_def start_incremental_def reader_start_def stored_id_def)

section \<open>Classifying statements\<close>


lemmas parse_operation_eval = parse_operation_def py_upper_def py_upper_char_def latin1_lower_def
  latin1_upper_def startswith_def
  py_strip_def is_py_space_def Let_def


text \<open>
  C8. A write statement with a leading comment is meant to be classified like any other.
  \<open>parse_operation\<close> strips whitespace only and then tests the first keyword, so the
  statement below is taken for a non-write statement, whatever the libraries would make of
  it: \<open>parse_sql\<close> returns \<open>(None, None)\<close> and the write goes unaudited.
\<close>
theorem parse_sql_leading_comment:
  "parse_sql libs ''/* audit */ INSERT INTO users (name) VALUES (1)'' = (None, None)"
  by (simp add: parse_sql_def parse_operation_eval)

lemma parse_operation_leading_whitespace:
  "parse_operation ''  insert into users values (1)'' = Some ''INSERT''"
  by (simp add: parse_operation_eval)

lemma parse_sql_select: "parse_sql libs ''SELECT * FROM users'' = (None, None)"
  by (simp add: parse_sql_def parse_operation_eval)

lemma parse_sql_ddl: "parse_sql libs ''CREATE TABLE users (id INTEGER)'' = (None, None)"
  by (simp add: parse_sql_def parse_operation_eval)

section \<open>Capturing a write through the interceptor\<close>

lemma conn_execute_sent:
  "conn_execute drv s (db, sent) = ((db', sent'), r) \<Longrightarrow>
     \<exists>out. sent' = sent @ [(s, out)] \<and> (case r of Inl e \<Rightarrow> out = Some e | Inr cur \<Rightarrow> out = None)"
  by (auto simp: conn_execute_def split: sum.splits)

lemma fetch_before_data_sent:
  "fetch_before_data drv sql params tbl (db, sent) = ((db', sent'), img) \<Longrightarrow>
     sent' = sent \<or>
     (\<exists>w out. sent' = sent @ [(SelectBefore tbl w params, out)] \<and> (out \<noteq> None \<longrightarrow> img = None))"
  by (auto simp: fetch_before_data_def split: option.splits if_splits prod.splits sum.splits
      dest!: conn_execute_sent)

lemma fetch_after_data_sent:
  "fetch_after_data drv tbl rid (db, sent) = ((db', sent'), img) \<Longrightarrow>
     sent' = sent \<or>
     (\<exists>r out. sent' = sent @ [(SelectAfter tbl r, out)] \<and> (out \<noteq> None \<longrightarrow> img = None))"
  by (auto simp: fetch_after_data_def split: option.splits if_splits prod.splits sum.splits
      dest!: conn_execute_sent)

lemma dumps_or_none_None: "dumps_or_none None = Inr None"
  by (simp add: dumps_or_none_def)

lemma dump_items_error:
  "dump_items row = Inl e \<Longrightarrow> e = TypeError ''Object of type bytes is not JSON serializable''"
  by (induction row rule: dump_items.induct) (auto split: option.splits sum.splits)

lemma dumps_or_none_error:
  "dumps_or_none img = Inl e \<Longrightarrow> e = TypeError ''Object of type bytes is not JSON serializable''"
  by (auto simp: dumps_or_none_def json_dumps_def split: option.splits if_splits sum.splits
      dest: dump_items_error)

lemma write_audit_log_sent:
  "write_audit_log drv c tbl op rid bi ai (db, sent) = ((db', sent'), r) \<Longrightarrow>
     (sent' = sent \<and> r = Inl (TypeError ''Object of type bytes is not JSON serializable'')) \<or>
     (\<exists>b a out. dumps_or_none bi = Inr b \<and> dumps_or_none ai = Inr a \<and>
        sent' = sent @ [(InsertAudit (audit_table c) tbl op rid b a, out)] \<and>
        (case out of Some e \<Rightarrow> r = Inl e | None \<Rightarrow> r = Inr ()))"
  by (auto simp: write_audit_log_def split: prod.splits sum.splits
      dest!: conn_execute_sent dumps_or_none_error)

lemma triple_exhaust: "\<exists>db1 s1 bi. (X :: ('a \<times> 'b) \<times> 'c) = ((db1, s1), bi)"
  by (metis surj_pair)

lemma execute_with_audit_shape:
  assumes "execute_with_audit drv c sql ps op tbl (db, []) = ((db', sent), res)"
  shows "\<exists>pre out2 fa wr b a rid.
           sent = pre @ [(Business sql (convert_parameters ps), out2)] @ fa @ wr \<and>
           (pre = [] \<or> (\<exists>w out1. pre = [(SelectBefore tbl w (convert_parameters ps), out1)] \<and>
                           (out1 \<noteq> None \<longrightarrow> b = None))) \<and>
           (fa = [] \<or> (\<exists>r out3. fa = [(SelectAfter tbl r, out3)] \<and>
                           (out3 \<noteq> None \<longrightarrow> a = None))) \<and>
           (wr = [] \<or> (\<exists>out4. wr = [(InsertAudit (audit_table c) tbl op rid b a, out4)] \<and>
                           (case out4 of Some e \<Rightarrow> res = Inl e
                            | None \<Rightarrow> out2 = None \<and> (\<exists>cur. res = Inr cur)))) \<and>
           (wr = [] \<longrightarrow> (\<exists>e. res = Inl e \<and>
                (out2 = Some e \<or>
                 e = TypeError ''Object of type bytes is not JSON serializable''))) \<and>
           (out2 \<noteq> None \<longrightarrow> wr = [])"
proof -
  let ?params = "convert_parameters ps"
  let ?ud = "op = ''UPDATE'' \<or> op = ''DELETE''"
  let ?B = "Business sql ?params"
  obtain db1 s1 bi where f1:
    "(if ?ud then fetch_before_data drv sql ?params tbl (db, []) else ((db, []), None))
       = ((db1, s1), bi)"
    by (metis surj_pair)
  have p1: "s1 = [] \<or> (\<exists>w out1. s1 = [(SelectBefore tbl w ?params, out1)] \<and>
              (out1 \<noteq> None \<longrightarrow> bi = None))"
    using f1 fetch_before_data_sent [of drv sql ?params tbl db "[]" db1 s1 bi]
    by (auto split: if_splits)
  obtain db2 s2 r2 where f2: "conn_execute drv ?B (db1, s1) = ((db2, s2), r2)"
    by (metis surj_pair)
  from conn_execute_sent [OF f2] obtain out2 where
    p2: "s2 = s1 @ [(?B, out2)]"
    and o2: "case r2 of Inl e \<Rightarrow> out2 = Some e | Inr cur \<Rightarrow> out2 = None"
    by blast
  show ?thesis
  proof (cases r2)
    case (Inl e)
    have "execute_with_audit drv c sql ps op tbl (db, []) = ((db2, s2), Inl e)"
      unfolding execute_with_audit_def Let_def f1 prod.case f2 Inl sum.case ..
    with assms have fin: "sent = s2" "res = Inl e"
      by simp_all
    have out2: "out2 = Some e" using o2 Inl by simp
    have pre: "s1 = [] \<or> (\<exists>w out1. s1 = [(SelectBefore tbl w ?params, out1)] \<and>
              (out1 \<noteq> None \<longrightarrow> (None :: json_text option) = None))"
      using p1 by blast
    show ?thesis
      apply (rule exI [of _ s1], rule exI [of _ out2], rule exI [of _ "[]"])
      apply (rule exI [of _ "[]"], rule exI [of _ None], rule exI [of _ None])
      apply (rule exI [of _ None])
      using fin p2 out2 pre
      apply simp
      done
  next
    case (Inr cur)
    have out2: "out2 = None" using o2 Inr by simp
    define rid2 where "rid2 =
       (if op = ''INSERT''
        then (case lastrowid cur of None \<Rightarrow> None
              | Some n \<Rightarrow> if n = 0 then None else Some (py_str_int n))
        else if ?ud then extract_row_id_from_where sql ?params bi else None)"
    define ia where "ia \<longleftrightarrow> op = ''INSERT'' \<or> op = ''UPDATE''"
    let ?X3 = "if ia then fetch_after_data drv tbl rid2 (db2, s2) else ((db2, s2), None)"
    obtain db3 s3 ai where f3: "?X3 = ((db3, s3), ai)"
      using triple_exhaust [of ?X3] by blast
    have p3: "s3 = s2 \<or> (\<exists>r out3. s3 = s2 @ [(SelectAfter tbl r, out3)] \<and>
                (out3 \<noteq> None \<longrightarrow> ai = None))"
    proof (cases ia)
      case True
      with f3 have "fetch_after_data drv tbl rid2 (db2, s2) = ((db3, s3), ai)" by simp
      then show ?thesis by (rule fetch_after_data_sent)
    next
      case False
      with f3 show ?thesis by simp
    qed
    then obtain fa where fa: "s3 = s2 @ fa"
      and fa': "fa = [] \<or> (\<exists>r out3. fa = [(SelectAfter tbl r, out3)] \<and>
                (out3 \<noteq> None \<longrightarrow> ai = None))"
      by auto
    obtain db4 s4 r4 where f4:
      "write_audit_log drv c tbl op rid2 bi ai (db3, s3) = ((db4, s4), r4)"
      by (metis surj_pair)
    note p4 = write_audit_log_sent [OF f4]
    have "execute_with_audit drv c sql ps op tbl (db, []) =
            (case r4 of Inl e \<Rightarrow> ((db4, s4), Inl e) | Inr u \<Rightarrow> ((db4, s4), Inr cur))"
      unfolding execute_with_audit_def Let_def f1 prod.case f2 Inr sum.case
        rid2_def [symmetric] ia_def [symmetric] f3 f4 ..
    with assms have fin: "sent = s4" "res = (case r4 of Inl e \<Rightarrow> Inl e | Inr u \<Rightarrow> Inr cur)"
      by (simp_all split: sum.splits)
    from p4 show ?thesis
    proof
      assume w: "s4 = s3 \<and> r4 = Inl (TypeError ''Object of type bytes is not JSON serializable'')"
      have pre: "s1 = [] \<or> (\<exists>w out1. s1 = [(SelectBefore tbl w ?params, out1)] \<and>
              (out1 \<noteq> None \<longrightarrow> (None :: json_text option) = None))"
        using p1 by blast
      have fa2: "fa = [] \<or> (\<exists>r out3. fa = [(SelectAfter tbl r, out3)] \<and>
                (out3 \<noteq> None \<longrightarrow> (None :: json_text option) = None))"
        using fa' by blast
      have r: "res = Inl (TypeError ''Object of type bytes is not JSON serializable'')"
        using fin(2) w by simp
      show ?thesis
        apply (rule exI [of _ s1], rule exI [of _ out2], rule exI [of _ fa])
        apply (rule exI [of _ "[]"], rule exI [of _ None], rule exI [of _ None])
        apply (rule exI [of _ None])
        using fin(1) w fa p2 out2 pre fa2 r
        apply simp
        done
    next
      assume "\<exists>b a out. dumps_or_none bi = Inr b \<and> dumps_or_none ai = Inr a \<and>
        s4 = s3 @ [(InsertAudit (audit_table c) tbl op rid2 b a, out)] \<and>
        (case out of Some e \<Rightarrow> r4 = Inl e | None \<Rightarrow> r4 = Inr ())"
      then obtain b a out4 where db: "dumps_or_none bi = Inr b" and da: "dumps_or_none ai = Inr a"
        and s4: "s4 = s3 @ [(InsertAudit (audit_table c) tbl op rid2 b a, out4)]"
        and r4: "case out4 of Some e \<Rightarrow> r4 = Inl e | None \<Rightarrow> r4 = Inr ()"
        by blast
      have res: "case out4 of Some e \<Rightarrow> res = Inl e | None \<Rightarrow> out2 = None \<and> (\<exists>cur. res = Inr cur)"
        using fin(2) r4 out2 by (cases out4) auto
      have bn: "bi = None \<longrightarrow> b = None" using db by (auto simp: dumps_or_none_None)
      have an: "ai = None \<longrightarrow> a = None" using da by (auto simp: dumps_or_none_None)
      have pre: "s1 = [] \<or> (\<exists>w out1. s1 = [(SelectBefore tbl w ?params, out1)] \<and>
              (out1 \<noteq> None \<longrightarrow> b = None))"
        using p1 bn by blast
      have fa2: "fa = [] \<or> (\<exists>r out3. fa = [(SelectAfter tbl r, out3)] \<and>
                (out3 \<noteq> None \<longrightarrow> a = None))"
        using fa' an by blast
      have wr: "\<exists>out4'. [(InsertAudit (audit_table c) tbl op rid2 b a, out4)] =
                  [(InsertAudit (audit_table c) tbl op rid2 b a, out4')] \<and>
                  (case out4' of Some e \<Rightarrow> res = Inl e
                   | None \<Rightarrow> out2 = None \<and> (\<exists>cur. res = Inr cur))"
        using res by blast
      have sent: "sent = s1 @ [(?B, out2)] @ fa @
                    [(InsertAudit (audit_table c) tbl op rid2 b a, out4)]"
        using fin(1) s4 fa p2 by simp
      show ?thesis
        apply (rule exI [of _ s1], rule exI [of _ out2], rule exI [of _ fa])
        apply (rule exI [of _ "[(InsertAudit (audit_table c) tbl op rid2 b a, out4)]"])
        apply (rule exI [of _ b], rule exI [of _ a], rule exI [of _ rid2])
        apply (intro conjI)
             apply (rule sent)
            apply (rule pre)
           apply (rule fa2)
          apply (rule disjI2, rule wr)
         apply simp
        using out2 apply simp
        done
    qed
  qed
qed

lemma execute_sent_cases:
  assumes "execute drv libs c sql ps (db, []) = ((db', sent), res)"
  shows "(\<exists>out. sent = [(Business sql (convert_parameters ps), out)]) \<or>
         (\<exists>op tbl. execute_with_audit drv c sql ps op tbl (db, []) = ((db', sent), res))"
proof (cases "parse_sql libs sql")
  case (Pair opn tbl)
  show ?thesis
  proof (cases "opn \<noteq> None \<and> should_audit c tbl")
    case True
    then obtain op where "opn = Some op" by auto
    with True Pair assms
    have "execute_with_audit drv c sql ps op tbl (db, []) = ((db', sent), res)"
      by (simp add: execute_def)
    then show ?thesis by blast
  next
    case False
    with Pair assms
    have "conn_execute drv (Business sql (convert_parameters ps)) (db, []) = ((db', sent), res)"
      by (auto simp: execute_def split: option.splits if_splits)
    from conn_execute_sent [OF this] show ?thesis by auto
  qed
qed

lemma update_users_parse:
  "parse_sql update_users_libs ''UPDATE users SET a = 1 WHERE ROWID = ?'' =
     (Some ''UPDATE'', Some ''users'')"
  by (simp add: parse_sql_def extract_table_name_def parse_operation_eval update_users_libs_def
      real_name_result_def)

lemma update_users_where:
  "extract_where_clause ''UPDATE users SET a = 1 WHERE ROWID = ?'' = Some ''ROWID = ?''"
  by (simp add: extract_where_clause_def parse_operation_eval)

lemma update_users_row_id:
  "extract_row_id_from_where ''UPDATE users SET a = 1 WHERE ROWID = ?'' [SqlInt 1] None = Some ''1''"
  by (simp add: extract_row_id_from_where_def update_users_where py_contains_def second_part_def
      parse_operation_eval py_int_eval)

lemma update_users_run:
  assumes "convert_parameters ps = [SqlInt 1]"
  shows "execute fetches_fail update_users_libs
      \<lparr>audit_table = ''_cdc_audit_log'', enabled_tables = []\<rparr>
      ''UPDATE users SET a = 1 WHERE ROWID = ?'' ps (0, []) =
    ((1, [(SelectBefore (Some ''users'') ''ROWID = ?'' [SqlInt 1],
             Some (DriverError ''no such column'')),
          (Business ''UPDATE users SET a = 1 WHERE ROWID = ?'' [SqlInt 1], None),
          (SelectAfter (Some ''users'') ''1'', Some (DriverError ''no such column'')),
          (InsertAudit ''_cdc_audit_log'' (Some ''users'') ''UPDATE'' (Some ''1'') None None,
             None)]),
     Inr \<lparr>fetchone = None, lastrowid = None\<rparr>)"
  by (simp add: execute_def update_users_parse should_audit_def execute_with_audit_def assms
      fetch_before_data_def update_users_where conn_execute_def update_users_row_id
      fetch_after_data_def write_audit_log_def dumps_or_none_def Let_def)



text \<open>
  C10. Every statement that \<open>execute\<close> sends with the caller's parameters (the business
  statement, always sent, and the before-image fetch) carries them as a sequence: the
  values of a \<open>dict\<close> in its iteration order, the elements of a tuple or list, and nothing
  for a value of any other type.
\<close>
theorem execute_parameters_positional:
  assumes "execute drv libs c sql ps (db, []) = ((db', sent), res)"
  shows "(\<exists>out. (Business sql (case ps of ParamDict d \<Rightarrow> map snd d | ParamOther \<Rightarrow> []
                                 | ParamTuple xs \<Rightarrow> xs | ParamList xs \<Rightarrow> xs), out) \<in> set sent) \<and>
         (\<forall>s out xs. (s, out) \<in> set sent \<and> caller_params s = Some xs \<longrightarrow>
            xs = (case ps of ParamDict d \<Rightarrow> map snd d | ParamOther \<Rightarrow> []
                  | ParamTuple xs \<Rightarrow> xs | ParamList xs \<Rightarrow> xs))"
proof -
  let ?p = "convert_parameters ps"
  have conv: "(case ps of ParamDict d \<Rightarrow> map snd d | ParamOther \<Rightarrow> []
               | ParamTuple xs \<Rightarrow> xs | ParamList xs \<Rightarrow> xs) = ?p"
    by (cases ps) simp_all
  have "(\<exists>out. (Business sql ?p, out) \<in> set sent) \<and>
        (\<forall>s out xs. (s, out) \<in> set sent \<and> caller_params s = Some xs \<longrightarrow> xs = ?p)"
    using execute_sent_cases [OF assms]
  proof
    assume "\<exists>out. sent = [(Business sql ?p, out)]"
    then show ?thesis by auto
  next
    assume "\<exists>op tbl. execute_with_audit drv c sql ps op tbl (db, []) = ((db', sent), res)"
    then obtain op tbl where
      "execute_with_audit drv c sql ps op tbl (db, []) = ((db', sent), res)" by blast
    from execute_with_audit_shape [OF this]
    obtain pre out2 fa wr b a rid where
      sent: "sent = pre @ [(Business sql ?p, out2)] @ fa @ wr"
      and pre: "pre = [] \<or> (\<exists>w out1. pre = [(SelectBefore tbl w ?p, out1)] \<and>
                           (out1 \<noteq> None \<longrightarrow> b = None))"
      and fa: "fa = [] \<or> (\<exists>r out3. fa = [(SelectAfter tbl r, out3)] \<and>
                           (out3 \<noteq> None \<longrightarrow> a = None))"
      and wr: "wr = [] \<or> (\<exists>out4. wr = [(InsertAudit (audit_table c) tbl op rid b a, out4)] \<and>
                           (case out4 of Some e \<Rightarrow> res = Inl e
                            | None \<Rightarrow> out2 = None \<and> (\<exists>cur. res = Inr cur)))"
      by blast
    have pre_set: "\<And>s out xs. (s, out) \<in> set pre \<Longrightarrow> caller_params s = Some xs \<Longrightarrow> xs = ?p"
      using pre by auto
    have fa_set: "\<And>s out. (s, out) \<in> set fa \<Longrightarrow> caller_params s = None"
      using fa by auto
    have wr_set: "\<And>s out. (s, out) \<in> set wr \<Longrightarrow> caller_params s = None"
      using wr by auto
    have mem: "\<And>s out. (s, out) \<in> set sent \<longleftrightarrow>
      (s, out) \<in> set pre \<or> (s, out) = (Business sql ?p, out2) \<or> (s, out) \<in> set fa \<or>
      (s, out) \<in> set wr"
      using sent by auto
    have c1: "\<exists>out. (Business sql ?p, out) \<in> set sent" using mem by blast
    have c2: "\<forall>s out xs. (s, out) \<in> set sent \<and> caller_params s = Some xs \<longrightarrow> xs = ?p"
    proof (intro allI impI)
      fix s out xs assume h: "(s, out) \<in> set sent \<and> caller_params s = Some xs"
      then consider "(s, out) \<in> set pre" | "s = Business sql ?p" | "(s, out) \<in> set fa"
        | "(s, out) \<in> set wr"
        using mem [of s out] by auto
      then show "xs = ?p"
      proof cases
        case 1 with h pre_set show ?thesis by blast
      next
        case 2 with h show ?thesis by simp
      next
        case 3 with h fa_set [of s out] show ?thesis by simp
      next
        case 4 with h wr_set [of s out] show ?thesis by simp
      qed
    qed
    from c1 c2 show ?thesis ..
  qed
  then show ?thesis unfolding conv .
qed

text \<open>
  The theorem at the same statement called with the dictionary \<open>{"rid": 1}\<close>: the
  business statement is sent with the tuple \<open>(1,)\<close>, as is the before-image fetch.
\<close>
theorem execute_parameters_positional_witness:
  "execute fetches_fail update_users_libs
      \<lparr>audit_table = ''_cdc_audit_log'', enabled_tables = []\<rparr>
      ''UPDATE users SET a = 1 WHERE ROWID = ?'' (ParamDict [(''rid'', SqlInt 1)]) (0, []) =
    ((1, [(SelectBefore (Some ''users'') ''ROWID = ?'' [SqlInt 1],
             Some (DriverError ''no such column'')),
          (Business ''UPDATE users SET a = 1 WHERE ROWID = ?'' [SqlInt 1], None),
          (SelectAfter (Some ''users'') ''1'', Some (DriverError ''no such column'')),
          (InsertAudit ''_cdc_audit_log'' (Some ''users'') ''UPDATE'' (Some ''1'') None None,
             None)]),
     Inr \<lparr>fetchone = None, lastrowid = None\<rparr>) \<and>
   (\<exists>out. (Business ''UPDATE users SET a = 1 WHERE ROWID = ?'' (map snd [(''rid'', SqlInt 1)]), out)
      \<in> set [(SelectBefore (Some ''users'') ''ROWID = ?'' [SqlInt 1],
             Some (DriverError ''no such column'')),
          (Business ''UPDATE users SET a = 1 WHERE ROWID = ?'' [SqlInt 1], None),
          (SelectAfter (Some ''users'') ''1'', Some (DriverError ''no such column'')),
          (InsertAudit ''_cdc_audit_log'' (Some ''users'') ''UPDATE'' (Some ''1'') None None,
             None)])"
proof -
  let ?c = "\<lparr>audit_table = ''_cdc_audit_log'', enabled_tables = []\<rparr>"
  let ?sql = "''UPDATE users SET a = 1 WHERE ROWID = ?''"
  let ?sent = "[(SelectBefore (Some ''users'') ''ROWID = ?'' [SqlInt 1],
             Some (DriverError ''no such column'')),
          (Business ?sql [SqlInt 1], None),
          (SelectAfter (Some ''users'') ''1'', Some (DriverError ''no such column'')),
          (InsertAudit ''_cdc_audit_log'' (Some ''users'') ''UPDATE'' (Some ''1'') None None,
             None)]"
  let ?res = "Inr \<lparr>fetchone = None, lastrowid = None\<rparr> :: error + cursor"
  have h: "execute fetches_fail update_users_libs ?c ?sql (ParamDict [(''rid'', SqlInt 1)])
             (0, []) = ((1, ?sent), ?res)"
    by (rule update_users_run) simp
  note t = execute_parameters_positional [OF h]
  have "\<exists>out. (Business ?sql (map snd [(''rid'', SqlInt 1)]), out) \<in> set ?sent"
    using t unfolding parameters.case by (rule conjunct1)
  with h show ?thesis by (intro conjI)
qed

end
